theory Spec2Isabelle
  imports Main
begin

section \<open>The session layer of pydle: \<^verbatim>\<open>pydle/client.py\<close>\<close>

text \<open>
  A shallow embedding of \<^verbatim>\<open>BasicClient\<close> and \<^verbatim>\<open>ClientPool\<close>. A client object is a
  record that every method takes and returns. A method that can raise returns an
  \<open>outcome\<close>: \<open>Ok s\<close> when it returns normally in state \<open>s\<close>, and \<open>Raised e s\<close> when the
  exception \<open>e\<close> leaves it in state \<open>s\<close> (Python keeps every mutation made before the raise).
  Log records, \<^verbatim>\<open>time.sleep\<close> and the calls made on the transport are appended to the
  field \<open>trace\<close>, in the order the code makes them.
\<close>

subsection \<open>Values, errors and effects\<close>

datatype error =
    ValueError | KeyError | IndexError | TypeError | AttributeError
  | NotImplementedError | NoMessageAvailable | HandlerFault string

datatype pyval = PNone | PStr string | PInt int | PBool bool | PList "pyval list"

datatype 'a outcome = Ok 'a | Raised error 'a

fun state_of :: "'a outcome \<Rightarrow> 'a" where
  "state_of (Ok s) = s"
| "state_of (Raised e s) = s"

fun raised :: "'a outcome \<Rightarrow> error option" where
  "raised (Ok s) = None"
| "raised (Raised e s) = Some e"

datatype level = Debug | Warning | Error | Exception

datatype event =
    Log level string "pyval list"
  | Sleep nat
  | TransportConnect
  | TransportDisconnect
  | TransportOn string string
  | TransportSend string

subsection \<open>The data model\<close>

text \<open>A channel is the dict \<^verbatim>\<open>{'users': set()}\<close>; a user is a dict from field names to values.\<close>

record channel =
  ch_users :: "string set"

type_synonym user = "string \<rightharpoonup> pyval"

text \<open>
  Modelled from the spec: \<^verbatim>\<open>connection.Connection\<close> is not among the sources. The
  transport is the opaque collaborator of the spec (\<^verbatim>\<open>connect()\<close>, \<^verbatim>\<open>disconnect()\<close>,
  registerable callbacks, a \<^verbatim>\<open>connected\<close> status and a \<^verbatim>\<open>hostname\<close>): connecting sets the
  status, disconnecting clears it, neither raises.
\<close>

record transport =
  t_hostname :: "string option"
  t_port :: int
  t_source_address :: "string option"
  t_connected :: bool
  t_callbacks :: "(string \<times> string) list"

text \<open>
  The class attributes (\<^verbatim>\<open>RECONNECT_*\<close>, the class name) and the two constants of the
  absent \<^verbatim>\<open>protocol\<close> module are fields too, so that a subclass or a configuration is a
  value of the record. Delays are wait durations, the attempt counter only counts up from
  zero: both are naturals.
\<close>

record client =
  class_name :: string
  RECONNECT_ON_ERROR :: bool
  RECONNECT_MAX_ATTEMPTS :: "nat option"
  RECONNECT_DELAYED :: bool
  RECONNECT_DELAYS :: "nat list"
  DEFAULT_PORT :: int
  DEFAULT_ENCODING :: string
  nicknames :: "string list"
  username :: pyval
  realname :: pyval
  hostname :: "pyval option"
  channels :: "string \<rightharpoonup> channel"
  users :: "string \<rightharpoonup> user"
  receive_buffer :: string
  logger :: string
  nickname :: string
  network :: "string option"
  connection :: "transport option"
  encoding :: "string option"
  has_quit :: bool
  autojoin_channels :: "string list"
  reconnect_attempts :: nat
  trace :: "event list"

definition UNREGISTERED_NICKNAME :: string where
  "UNREGISTERED_NICKNAME = ''<unregistered>''"

definition logger_root :: string where
  "logger_root = ''pydle.client''"

definition emit :: "event \<Rightarrow> client \<Rightarrow> client" where
  "emit e s = s\<lparr>trace := trace s @ [e]\<rparr>"

definition reset_attributes :: "client \<Rightarrow> client" where
  "reset_attributes s =
     s\<lparr>channels := Map.empty, users := Map.empty, receive_buffer := [],
       logger := logger_root, nickname := UNREGISTERED_NICKNAME, network := None\<rparr>"

definition reset_connection_attributes :: "client \<Rightarrow> client" where
  "reset_connection_attributes s =
     s\<lparr>connection := None, encoding := None, has_quit := False,
       autojoin_channels := [], reconnect_attempts := 0\<rparr>"

subsection \<open>Internal database management\<close>

definition create_channel :: "string \<Rightarrow> client \<Rightarrow> client" where
  "create_channel c s = s\<lparr>channels := (channels s)(c \<mapsto> \<lparr>ch_users = {}\<rparr>)\<rparr>"

definition create_user :: "string \<Rightarrow> client \<Rightarrow> client" where
  "create_user n s =
     s\<lparr>users := (users s)(n \<mapsto>
        [''nickname'' \<mapsto> PStr n, ''username'' \<mapsto> PNone,
         ''realname'' \<mapsto> PNone, ''hostname'' \<mapsto> PNone])\<rparr>"

definition is_same_nick :: "string \<Rightarrow> string \<Rightarrow> bool" where
  "is_same_nick left right = (left = right)"

definition is_same_channel :: "string \<Rightarrow> string \<Rightarrow> bool" where
  "is_same_channel left right = (left = right)"

text \<open>\<^verbatim>\<open>_sync_user\<close>: the early return for a server name, then create, mirror, merge.\<close>

definition sync_user :: "string \<Rightarrow> (string \<rightharpoonup> pyval) \<Rightarrow> client \<Rightarrow> client" where
  "sync_user nick metadata s =
     (if CHR ''.'' \<in> set nick then s
      else
        let s1 = (if nick \<notin> dom (users s) then create_user nick s else s);
            is_self = is_same_nick (nickname s1) nick;
            s2 = (if is_self \<and> ''username'' \<in> dom metadata
                  then s1\<lparr>username := the (metadata ''username'')\<rparr> else s1);
            s3 = (if is_self \<and> ''hostname'' \<in> dom metadata
                  then s2\<lparr>hostname := Some (the (metadata ''hostname''))\<rparr> else s2)
        in s3\<lparr>users := (users s3)(nick \<mapsto> the (users s3 nick) ++ metadata)\<rparr>)"

text \<open>
  \<^verbatim>\<open>_rename_user\<close>: \<^verbatim>\<open>users[new] = users[user]\<close> shares one dict, whose nickname is set
  before \<^verbatim>\<open>del users[user]\<close>; with \<^verbatim>\<open>user == new\<close> the deletion removes the entry just
  written. Then every channel that lists \<^verbatim>\<open>user\<close> loses it and gains \<^verbatim>\<open>new\<close>.
\<close>

definition rename_in_channel :: "string \<Rightarrow> string \<Rightarrow> channel \<Rightarrow> channel" where
  "rename_in_channel user new ch =
     (if user \<in> ch_users ch then ch\<lparr>ch_users := insert new (ch_users ch - {user})\<rparr> else ch)"

definition rename_user :: "string \<Rightarrow> string \<Rightarrow> client \<Rightarrow> client" where
  "rename_user user new s =
     (let s1 = (case users s user of
                  Some u \<Rightarrow>
                    s\<lparr>users := ((users s)(new \<mapsto> u(''nickname'' \<mapsto> PStr new)))(user := None)\<rparr>
                | None \<Rightarrow> create_user new s)
      in s1\<lparr>channels := (\<lambda>c. map_option (rename_in_channel user new) (channels s1 c))\<rparr>)"

text \<open>
  \<^verbatim>\<open>_destroy_user\<close>: \<^verbatim>\<open>if channel:\<close> is Python truthiness, so \<^verbatim>\<open>None\<close> and the empty
  name both select every channel. \<^verbatim>\<open>self.channels[channel]\<close> and \<^verbatim>\<open>del self.users[nickname]\<close>
  raise KeyError on a missing key.
\<close>

definition truthy_str :: "string option \<Rightarrow> bool" where
  "truthy_str x = (case x of None \<Rightarrow> False | Some v \<Rightarrow> v \<noteq> [])"

definition discard_user :: "string \<Rightarrow> channel \<Rightarrow> channel" where
  "discard_user n ch = ch\<lparr>ch_users := ch_users ch - {n}\<rparr>"

definition in_any_channel :: "string \<Rightarrow> client \<Rightarrow> bool" where
  "in_any_channel n s = (\<exists>c \<in> dom (channels s). n \<in> ch_users (the (channels s c)))"

definition del_user :: "string \<Rightarrow> client \<Rightarrow> client outcome" where
  "del_user n s =
     (if n \<in> dom (users s) then Ok (s\<lparr>users := (users s)(n := None)\<rparr>)
      else Raised KeyError s)"

definition destroy_user :: "string \<Rightarrow> string option \<Rightarrow> client \<Rightarrow> client outcome" where
  "destroy_user n channel s =
     (if truthy_str channel then
        (case channels s (the channel) of
           None \<Rightarrow> Raised KeyError s
         | Some ch \<Rightarrow>
             let s1 = s\<lparr>channels := (channels s)(the channel \<mapsto> discard_user n ch)\<rparr>
             in if \<not> in_any_channel n s1 then del_user n s1 else Ok s1)
      else
        del_user n (s\<lparr>channels := (\<lambda>c. map_option (discard_user n) (channels s c))\<rparr>))"

text \<open>
  \<^verbatim>\<open>_destroy_channel\<close> iterates over \<^verbatim>\<open>self.channels[channel]['users'][:]\<close>. The member
  collection is the \<^verbatim>\<open>set()\<close> of \<^verbatim>\<open>_create_channel\<close>, and a Python set has no
  \<^verbatim>\<open>__getitem__\<close>: the slice raises TypeError before the loop starts.
\<close>

definition set_slice_copy :: "'a set \<Rightarrow> error + 'a list" where
  "set_slice_copy S = Inl TypeError"

fun destroy_each :: "string list \<Rightarrow> string \<Rightarrow> client \<Rightarrow> client outcome" where
  "destroy_each [] channel s = Ok s"
| "destroy_each (u # us) channel s =
     (case destroy_user u (Some channel) s of
        Raised e s1 \<Rightarrow> Raised e s1
      | Ok s1 \<Rightarrow> destroy_each us channel s1)"

definition destroy_channel :: "string \<Rightarrow> client \<Rightarrow> client outcome" where
  "destroy_channel c s =
     (case channels s c of
        None \<Rightarrow> Raised KeyError s
      | Some ch \<Rightarrow>
          (case set_slice_copy (ch_users ch) of
             Inl e \<Rightarrow> Raised e s
           | Inr members \<Rightarrow>
               (case destroy_each members c s of
                  Raised e s1 \<Rightarrow> Raised e s1
                | Ok s1 \<Rightarrow>
                    if c \<in> dom (channels s1)
                    then Ok (s1\<lparr>channels := (channels s1)(c := None)\<rparr>)
                    else Raised KeyError s1)))"

definition format_hostmask :: "string \<Rightarrow> client \<Rightarrow> error + pyval list" where
  "format_hostmask n s =
     (let user = (case users s n of
                    None \<Rightarrow> [''username'' \<mapsto> PStr ''*'', ''hostname'' \<mapsto> PStr ''*'']
                  | Some u \<Rightarrow> u)
      in case (user ''username'', user ''hostname'') of
           (Some u, Some h) \<Rightarrow>
             Inr [PStr n, PStr ''!'',
                  (if u \<in> {PNone, PStr [], PInt 0, PBool False, PList []} then PStr ''*'' else u),
                  PStr ''@'',
                  (if h \<in> {PNone, PStr [], PInt 0, PBool False, PList []} then PStr ''*'' else h)]
         | _ \<Rightarrow> Inl KeyError)"

text \<open>The registry operations as data, and a run of them: a caller that catches the
  exception of one operation (as \<^verbatim>\<open>on_raw\<close> does for its handler) goes on in the state the
  exception left.\<close>

datatype op =
    CreateChannel string
  | DestroyChannel string
  | CreateUser string
  | SyncUser string "string \<rightharpoonup> pyval"
  | RenameUser string string
  | DestroyUser string "string option"

fun apply_op :: "op \<Rightarrow> client \<Rightarrow> client outcome" where
  "apply_op (CreateChannel c) s = Ok (create_channel c s)"
| "apply_op (DestroyChannel c) s = destroy_channel c s"
| "apply_op (CreateUser n) s = Ok (create_user n s)"
| "apply_op (SyncUser n md) s = Ok (sync_user n md s)"
| "apply_op (RenameUser a b) s = Ok (rename_user a b s)"
| "apply_op (DestroyUser n c) s = destroy_user n c s"

fun run_ops :: "op list \<Rightarrow> client \<Rightarrow> client" where
  "run_ops [] s = s"
| "run_ops (x # xs) s = run_ops xs (state_of (apply_op x s))"

definition no_dangling :: "client \<Rightarrow> bool" where
  "no_dangling s =
     (\<forall>c \<in> dom (channels s). \<forall>n \<in> ch_users (the (channels s c)). n \<in> dom (users s))"

definition is_server :: "string \<Rightarrow> bool" where
  "is_server n = (CHR ''.'' \<in> set n)"

definition no_server_keys :: "client \<Rightarrow> bool" where
  "no_server_keys s = (\<forall>n \<in> dom (users s). \<not> is_server n)"

subsection \<open>Python built-ins the code calls\<close>

text \<open>
  Strings are byte strings here, so \<^verbatim>\<open>str.lower\<close> is its ASCII part. \<^verbatim>\<open>xs[i]\<close> counts a
  negative index from the end and raises IndexError out of range. \<^verbatim>\<open>int(s)\<close> succeeds on
  an optionally signed run of decimal digits (single underscores between digits
  allowed) with surrounding whitespace stripped.
\<close>

definition lower_char :: "char \<Rightarrow> char" where
  "lower_char c =
     (if (65::nat) \<le> of_char c \<and> of_char c \<le> (90::nat)
      then char_of (of_char c + (32::nat)) else c)"

definition py_lower :: "string \<Rightarrow> string" where
  "py_lower s = map lower_char s"

definition truthy_int :: "int option \<Rightarrow> bool" where
  "truthy_int x = (case x of None \<Rightarrow> False | Some v \<Rightarrow> v \<noteq> 0)"

definition list_getitem :: "'a list \<Rightarrow> int \<Rightarrow> error + 'a" where
  "list_getitem xs i =
     (if 0 \<le> i \<and> i < int (length xs) then Inr (xs ! nat i)
      else if i < 0 \<and> - i \<le> int (length xs) then Inr (xs ! nat (int (length xs) + i))
      else Inl IndexError)"

definition is_digit :: "char \<Rightarrow> bool" where
  "is_digit c = (c \<in> set ''0123456789'')"

definition is_space :: "char \<Rightarrow> bool" where
  "is_space c = (of_char c \<in> {9::nat, 10, 11, 12, 13, 32})"

definition strip :: "string \<Rightarrow> string" where
  "strip s = rev (dropWhile is_space (rev (dropWhile is_space s)))"

fun digit_run :: "string \<Rightarrow> bool" where
  "digit_run [] = False"
| "digit_run [c] = is_digit c"
| "digit_run (c # d # cs) =
     (is_digit c \<and> (if d = CHR ''_'' then digit_run cs else digit_run (d # cs)))"

definition py_int_ok :: "string \<Rightarrow> bool" where
  "py_int_ok s =
     (case strip s of
        [] \<Rightarrow> False
      | c # cs \<Rightarrow> if c = CHR ''+'' \<or> c = CHR ''-'' then digit_run cs else digit_run (c # cs))"

definition rsplit1 :: "char \<Rightarrow> string \<Rightarrow> string \<times> string" where
  "rsplit1 sep s =
     (rev (drop 1 (dropWhile (\<lambda>c. c \<noteq> sep) (rev s))), rev (takeWhile (\<lambda>c. c \<noteq> sep) (rev s)))"

definition startswith :: "string \<Rightarrow> string \<Rightarrow> bool" where
  "startswith s p = (take (length p) s = p)"

fun digits_of :: "nat \<Rightarrow> string" where
  "digits_of n =
     (if n < 10 then [char_of (48 + n)] else digits_of (n div 10) @ [char_of (48 + n mod 10)])"

definition str_int :: "int \<Rightarrow> string" where
  "str_int i = (if i < 0 then CHR ''-'' # digits_of (nat (- i)) else digits_of (nat i))"

definition zfill :: "nat \<Rightarrow> string \<Rightarrow> string" where
  "zfill w s =
     (case s of
        [] \<Rightarrow> replicate w (CHR ''0'')
      | c # cs \<Rightarrow>
          if c = CHR ''+'' \<or> c = CHR ''-''
          then c # replicate (w - length s) (CHR ''0'') @ cs
          else replicate (w - length s) (CHR ''0'') @ s)"

subsection \<open>Connection\<close>

text \<open>\<^verbatim>\<open>_reconnect_delay\<close>: the comparison is \<^verbatim>\<open>>\<close>, the two reads are list indexing.\<close>

definition reconnect_delay :: "client \<Rightarrow> error + nat" where
  "reconnect_delay s =
     (if RECONNECT_ON_ERROR s \<and> RECONNECT_DELAYED s then
        (if reconnect_attempts s > length (RECONNECT_DELAYS s)
         then list_getitem (RECONNECT_DELAYS s) (- 1)
         else list_getitem (RECONNECT_DELAYS s) (int (reconnect_attempts s)))
      else Inr 0)"

definition connected :: "client \<Rightarrow> bool" where
  "connected s = (case connection s of None \<Rightarrow> False | Some t \<Rightarrow> t_connected t)"

definition server_tag :: "client \<Rightarrow> string option" where
  "server_tag s =
     (if connected s \<and> truthy_str (t_hostname (the (connection s))) then
        (if truthy_str (network s) then Some (py_lower (the (network s)))
         else
           let tag = py_lower (the (t_hostname (the (connection s))));
               tag1 = (if startswith tag ''irc.'' then drop 4 tag else tag)
           in if CHR ''.'' \<in> set tag1 then
                (case rsplit1 (CHR ''.'') tag1 of
                   (host, suffix) \<Rightarrow> Some (if py_int_ok suffix then tag1 else host))
              else Some tag1)
      else None)"

text \<open>The keyword arguments \<^verbatim>\<open>connect\<close> passes on to \<^verbatim>\<open>_connect\<close>; \<open>None\<close> is an argument
  not given, which takes the default of the signature.\<close>

record connect_kwargs =
  kw_channels :: "string list option"
  kw_encoding :: "string option"
  kw_source_address :: "string option"

definition no_kwargs :: connect_kwargs where
  "no_kwargs = \<lparr>kw_channels = None, kw_encoding = None, kw_source_address = None\<rparr>"

definition transport_connect :: "client \<Rightarrow> client" where
  "transport_connect s =
     emit TransportConnect
       (s\<lparr>connection := map_option (\<lambda>t. t\<lparr>t_connected := True\<rparr>) (connection s)\<rparr>)"

definition transport_disconnect :: "client \<Rightarrow> client" where
  "transport_disconnect s =
     emit TransportDisconnect
       (s\<lparr>connection := map_option (\<lambda>t. t\<lparr>t_connected := False\<rparr>) (connection s)\<rparr>)"

definition transport_on :: "string \<Rightarrow> string \<Rightarrow> client \<Rightarrow> client" where
  "transport_on ev cb s =
     emit (TransportOn ev cb)
       (s\<lparr>connection :=
            map_option (\<lambda>t. t\<lparr>t_callbacks := t_callbacks t @ [(ev, cb)]\<rparr>) (connection s)\<rparr>)"

definition connect_inner ::
  "string option \<Rightarrow> int option \<Rightarrow> bool \<Rightarrow> connect_kwargs \<Rightarrow> client \<Rightarrow> client" where
  "connect_inner host port reconnect kw s =
     (let s1 = (if \<not> reconnect
                then s\<lparr>autojoin_channels := (case kw_channels kw of None \<Rightarrow> [] | Some cs \<Rightarrow> cs)\<rparr>
                else s);
          s2 = (if \<not> reconnect \<or> connection s1 = None
                then s1\<lparr>connection :=
                          Some \<lparr>t_hostname = host,
                                t_port = (if truthy_int port then the port else DEFAULT_PORT s1),
                                t_source_address = kw_source_address kw,
                                t_connected = False, t_callbacks = []\<rparr>,
                        encoding :=
                          Some (case kw_encoding kw of None \<Rightarrow> DEFAULT_ENCODING s1 | Some e \<Rightarrow> e)\<rparr>
                else s1)
      in transport_on ''error'' ''on_data_error''
           (transport_on ''read'' ''on_data'' (transport_connect s2)))"

text \<open>
  \<^verbatim>\<open>connect\<close>, \<^verbatim>\<open>disconnect\<close> and \<^verbatim>\<open>on_disconnect\<close> call each other: connecting while
  connected disconnects first, disconnecting runs the disconnect callback with the quit
  flag, and the callback reconnects after an unexpected disconnect. The last statement of
  \<^verbatim>\<open>connect\<close> concatenates the class name with \<^verbatim>\<open>server_tag\<close>, which is a TypeError when
  the tag is \<^verbatim>\<open>None\<close>.
\<close>


function connect :: "string option \<Rightarrow> int option \<Rightarrow> bool \<Rightarrow> connect_kwargs \<Rightarrow> client \<Rightarrow> client outcome"
  and disconnect :: "client \<Rightarrow> client outcome"
  and on_disconnect :: "bool \<Rightarrow> client \<Rightarrow> client outcome" where
  "connect host port reconnect kw s =
     (if (\<not> truthy_str host \<or> \<not> truthy_int port) \<and> \<not> reconnect then Raised ValueError s
      else
        (case (if connected s then disconnect s else Ok s) of
           Raised e s1 \<Rightarrow> Raised e s1
         | Ok s1 \<Rightarrow>
             let s2 = (if \<not> reconnect then reset_connection_attributes s1 else s1);
                 s3 = connect_inner host port reconnect kw s2
             in (case server_tag s3 of
                   None \<Rightarrow> Raised TypeError s3
                 | Some tag \<Rightarrow> Ok (s3\<lparr>logger := class_name s3 @ '':'' @ tag\<rparr>))))"
| "disconnect s =
     (if connected s then
        (case on_disconnect (has_quit s) (transport_disconnect s) of
           Raised e s1 \<Rightarrow> Raised e s1
         | Ok s1 \<Rightarrow> Ok (reset_attributes s1))
      else Ok s)"
| "on_disconnect expected s =
     (if \<not> expected then
        (if RECONNECT_ON_ERROR s \<and>
            (case RECONNECT_MAX_ATTEMPTS s of None \<Rightarrow> True | Some m \<Rightarrow> reconnect_attempts s < m)
         then
           (case reconnect_delay s of
              Inl e \<Rightarrow> Raised e s
            | Inr delay \<Rightarrow>
                connect None None True no_kwargs
                  (emit (Sleep delay)
                    (emit (if delay > 0
                           then Log Error ''Unexpected disconnect. Attempting to reconnect within %s seconds.'' [PInt (int delay)]
                           else Log Error ''Unexpected disconnect. Attempting to reconnect.'' [])
                      (s\<lparr>reconnect_attempts := reconnect_attempts s + 1\<rparr>))))
         else Ok (emit (Log Error ''Unexpected disconnect. Giving up.'' []) s))
      else Ok s)"
  by pat_completeness auto
termination
proof (relation "measure (\<lambda>x. case x of
      Inl (h, p, r, kw, s) \<Rightarrow> (if connected s then 3 else 0) + 1
    | Inr (Inl s) \<Rightarrow> (if connected s then 3 else 0)
    | Inr (Inr (e, s)) \<Rightarrow> (if connected s then 3 else 0) + 2)", goal_cases)
  case 1 show ?case by simp
next
  case 2 then show ?case by simp
next
  case 3 then show ?case
    by (auto simp: connected_def transport_disconnect_def emit_def split: option.splits)
next
  case 4 then show ?case
    by (auto simp: connected_def emit_def)
qed

declare connect.simps [simp del] disconnect.simps [simp del] on_disconnect.simps [simp del]

definition on_data_error :: "client \<Rightarrow> client outcome" where
  "on_data_error s = disconnect s"

text \<open>\<^verbatim>\<open>on_connect\<close> joins the auto-join channels with \<^verbatim>\<open>self.join\<close>, which
  \<^verbatim>\<open>BasicClient\<close> does not define: it is a parameter.\<close>

fun join_each ::
  "(string \<Rightarrow> client \<Rightarrow> client outcome) \<Rightarrow> string list \<Rightarrow> client \<Rightarrow> client outcome" where
  "join_each join [] s = Ok s"
| "join_each join (c # cs) s =
     (case join c s of Raised e s1 \<Rightarrow> Raised e s1 | Ok s1 \<Rightarrow> join_each join cs s1)"

definition on_connect :: "(string \<Rightarrow> client \<Rightarrow> client outcome) \<Rightarrow> client \<Rightarrow> client outcome" where
  "on_connect join s = join_each join (autojoin_channels s) (s\<lparr>reconnect_attempts := 0\<rparr>)"

text \<open>\<^verbatim>\<open>__init__\<close> with the class attributes of \<^verbatim>\<open>BasicClient\<close>; the two constants of the
  protocol module are arguments.\<close>

definition init ::
  "int \<Rightarrow> string \<Rightarrow> string \<Rightarrow> string list \<Rightarrow> string option \<Rightarrow> string option \<Rightarrow> client" where
  "init default_port default_encoding nick fallback_nicknames user real =
     reset_attributes (reset_connection_attributes
       \<lparr>class_name = ''BasicClient'',
        RECONNECT_ON_ERROR = True,
        RECONNECT_MAX_ATTEMPTS = Some 3,
        RECONNECT_DELAYED = True,
        RECONNECT_DELAYS = [0, 30, 120, 600],
        DEFAULT_PORT = default_port,
        DEFAULT_ENCODING = default_encoding,
        nicknames = nick # fallback_nicknames,
        username = PStr (if truthy_str user then the user else py_lower nick),
        realname = PStr (if truthy_str real then the real else nick),
        hostname = None,
        channels = Map.empty, users = Map.empty, receive_buffer = [],
        logger = logger_root, nickname = UNREGISTERED_NICKNAME, network = None,
        connection = None, encoding = None, has_quit = False,
        autojoin_channels = [], reconnect_attempts = 0, trace = []\<rparr>)"

subsection \<open>Message dispatch\<close>

text \<open>
  Modelled from the spec: the message type belongs to the absent codec. A message has a
  \<^verbatim>\<open>source\<close>, a \<^verbatim>\<open>command\<close> that is a string or a number, \<^verbatim>\<open>params\<close>, a validity flag
  and its raw text.
\<close>

datatype command = Numeric int | Word string

record message =
  m_source :: "string option"
  m_command :: command
  m_params :: "string list"
  m_valid :: bool
  m_raw :: string

text \<open>
  \<^verbatim>\<open>_has_message\<close> and \<^verbatim>\<open>_parse_message\<close> raise NotImplementedError in \<^verbatim>\<open>BasicClient\<close> and
  the \<^verbatim>\<open>on_raw_*\<close> methods live in subclasses: they are parameters. \<open>handlers\<close> maps an
  attribute name to the method of that name, so \<^verbatim>\<open>hasattr(self, name)\<close> is membership
  in its domain; a handler that raises returns \<open>Raised\<close> with the state it left. The two
  functions of the codec return a value (\<open>Inr\<close>) or raise (\<open>Inl\<close>); \<open>abstract_hooks\<close> are
  those of \<^verbatim>\<open>BasicClient\<close> itself.
\<close>

type_synonym handler = "message \<Rightarrow> client \<Rightarrow> client outcome"

record hooks =
  handlers :: "string \<rightharpoonup> handler"
  has_message :: "client \<Rightarrow> error + bool"
  parse_message :: "client \<Rightarrow> error + message \<times> client"

definition abstract_hooks :: hooks where
  "abstract_hooks =
     \<lparr>handlers = Map.empty, has_message = (\<lambda>s. Inl NotImplementedError),
      parse_message = (\<lambda>s. Inl NotImplementedError)\<rparr>"

definition command_val :: "command \<Rightarrow> pyval" where
  "command_val c = (case c of Numeric i \<Rightarrow> PInt i | Word w \<Rightarrow> PStr w)"

definition on_unknown :: handler where
  "on_unknown m s =
     Ok (emit (Log Warning ''Unknown command: [%s] %s %s''
            [(case m_source m of None \<Rightarrow> PNone | Some src \<Rightarrow> PStr src),
             command_val (m_command m), PList (map PStr (m_params m))]) s)"

definition resolve :: "hooks \<Rightarrow> string \<Rightarrow> handler" where
  "resolve h name =
     (case handlers h name of
        Some f \<Rightarrow> f
      | None \<Rightarrow> on_unknown)"

text \<open>\<^verbatim>\<open>on_raw\<close>: two log records, the method name (a numeric command is zero-padded
  to three digits), then the call inside \<^verbatim>\<open>try: ... except:\<close>, whose handler logs and
  returns.\<close>

definition log_message :: "message \<Rightarrow> client \<Rightarrow> client" where
  "log_message m s =
     (let s1 = emit (Log Debug ''<< [%s] %s %s''
                  [PStr (if truthy_str (m_source m) then the (m_source m) else []),
                   command_val (m_command m), PList (map PStr (m_params m))]) s
      in if \<not> m_valid m
         then emit (Log Warning ''Encountered strictly invalid IRC message from server: %s''
                 [PStr (m_raw m)]) s1
         else s1)"

definition method_for :: "hooks \<Rightarrow> message \<Rightarrow> string" where
  "method_for h m =
     (let cmd = (case m_command m of Numeric i \<Rightarrow> zfill 3 (str_int i) | Word w \<Rightarrow> w);
          method = ''on_raw_'' @ py_lower cmd
      in if method \<notin> dom (handlers h) then ''on_unknown'' else method)"

definition on_raw :: "hooks \<Rightarrow> message \<Rightarrow> client \<Rightarrow> client outcome" where
  "on_raw h m s =
     (case resolve h (method_for h m) m (log_message m s) of
        Ok s1 \<Rightarrow> Ok s1
      | Raised e s1 \<Rightarrow>
          Ok (emit (Log Exception ''Failed to execute %s handler.'' [PStr (method_for h m)]) s1))"

text \<open>\<^verbatim>\<open>on_data\<close>: the \<^verbatim>\<open>while self._has_message()\<close> loop ends only when the codec says
  so, hence a partial function: \<open>None\<close> is a loop that never ends. The two calls of the
  codec are outside every \<^verbatim>\<open>try\<close>: what they raise leaves \<^verbatim>\<open>on_data\<close>.\<close>

partial_function (option) dispatch_loop :: "hooks \<Rightarrow> client \<Rightarrow> client outcome option" where
  "dispatch_loop h s =
     (case has_message h s of
        Inl e \<Rightarrow> Some (Raised e s)
      | Inr pending \<Rightarrow>
          if pending then
            (case parse_message h s of
               Inl e \<Rightarrow> Some (Raised e s)
             | Inr (m, s1) \<Rightarrow>
                 (case on_raw h m s1 of
                    Raised e s2 \<Rightarrow> Some (Raised e s2)
                  | Ok s2 \<Rightarrow> dispatch_loop h s2))
          else Some (Ok s))"

definition on_data :: "hooks \<Rightarrow> string \<Rightarrow> client \<Rightarrow> client outcome option" where
  "on_data h data s = dispatch_loop h (s\<lparr>receive_buffer := receive_buffer s @ data\<rparr>)"

subsection \<open>The client pool\<close>

text \<open>
  \<^verbatim>\<open>ClientPool\<close> keeps \<^verbatim>\<open>itertools.cycle(self.clients)\<close>: an iterator that yields the
  members in the iteration order of the set, again and again, and that survives from one
  call of \<^verbatim>\<open>handle_message\<close> to the next. \<open>clients\<close> is the set in its iteration
  order and \<open>client_cycle\<close> counts the items the iterator has yielded, so its next item is
  at index \<open>client_cycle mod length clients\<close>. The \<^verbatim>\<open>for\<close> loop over the cycle of an empty
  set ends at once and the method returns \<^verbatim>\<open>None\<close>; over a non-empty set it ends only
  at a client with a message, or at a client whose \<^verbatim>\<open>_has_message\<close> raises.
  \<^verbatim>\<open>client._has_message\<close> (which returns or raises, as above), \<^verbatim>\<open>client.poll_single\<close> and
  the connection pool's \<^verbatim>\<open>has_message\<close> (not defined in this file) are parameters.
\<close>

record ('c, 'r) pool_hooks =
  client_has_message :: "'c \<Rightarrow> error + bool"
  client_poll_single :: "'c \<Rightarrow> 'r \<times> 'c"
  connpool_has_message :: "'c list \<Rightarrow> bool"

record 'c pool =
  clients :: "'c list"
  client_cycle :: nat

definition pool_init :: "'c list \<Rightarrow> 'c pool" where
  "pool_init cs = \<lparr>clients = cs, client_cycle = 0\<rparr>"

text \<open>The scan: the position at which the loop ends, with the exception if it ends by
  one.\<close>

partial_function (option) next_ready ::
  "('c \<Rightarrow> error + bool) \<Rightarrow> 'c list \<Rightarrow> nat \<Rightarrow> (error option \<times> nat) option" where
  "next_ready ready cs k =
     (case ready (cs ! (k mod length cs)) of
        Inl e \<Rightarrow> Some (Some e, k)
      | Inr found \<Rightarrow> if found then Some (None, k) else next_ready ready cs (Suc k))"

definition handle_message ::
  "('c, 'r) pool_hooks \<Rightarrow> 'c pool \<Rightarrow> ((error + 'r option) \<times> 'c pool) option" where
  "handle_message h p =
     (if \<not> connpool_has_message h (clients p) then Some (Inl NoMessageAvailable, p)
      else if clients p = [] then Some (Inr None, p)
      else
        (case next_ready (client_has_message h) (clients p) (client_cycle p) of
           None \<Rightarrow> None
         | Some (Some e, k) \<Rightarrow> Some (Inl e, p\<lparr>client_cycle := Suc k\<rparr>)
         | Some (None, k) \<Rightarrow>
             let i = k mod length (clients p);
                 rc = client_poll_single h (clients p ! i)
             in Some (Inr (Some (fst rc)),
                      p\<lparr>clients := (clients p)[i := snd rc], client_cycle := Suc k\<rparr>)))"

subsection \<open>Predicates and example states used in the properties\<close>

text \<open>A client as \<^verbatim>\<open>BasicClient('alice')\<close> constructs it, with pydle's port and encoding.\<close>

definition example_client :: client where
  "example_client = init 6667 ''utf-8'' ''alice'' [] None None"

definition members_empty :: "client \<Rightarrow> bool" where
  "members_empty s = (\<forall>c \<in> dom (channels s). ch_users (the (channels s c)) = {})"

text \<open>The operations that write a key into the user table without the server check of
  \<^verbatim>\<open>_sync_user\<close>, when that key is a server name.\<close>

fun names_server :: "op \<Rightarrow> bool" where
  "names_server (CreateUser n) = is_server n"
| "names_server (RenameUser a b) = is_server b"
| "names_server x = False"

text \<open>User \<open>a\<close> as \<^verbatim>\<open>_create_user\<close> makes it, member of one channel.\<close>

definition roundtrip_client :: client where
  "roundtrip_client =
     (create_user ''a'' example_client)\<lparr>channels := [''#c'' \<mapsto> \<lparr>ch_users = {''a''}\<rparr>]\<rparr>"

text \<open>The condition under which \<^verbatim>\<open>on_disconnect\<close> reconnects after an unexpected
  disconnect.\<close>

definition reconnect_permitted :: "client \<Rightarrow> bool" where
  "reconnect_permitted s =
     (RECONNECT_ON_ERROR s \<and>
      (case RECONNECT_MAX_ATTEMPTS s of None \<Rightarrow> True | Some m \<Rightarrow> reconnect_attempts s < m))"

text \<open>The states and log records that \<^verbatim>\<open>disconnect\<close> produces, named for the statements
  below: the transport closed or reopened in place, the session attributes of
  \<^verbatim>\<open>_reset_attributes\<close> reset on top of a given transport and trace, and the two log
  records of \<^verbatim>\<open>on_disconnect\<close>.\<close>

definition closed_transport :: "client \<Rightarrow> transport option" where
  "closed_transport s = map_option (\<lambda>t. t\<lparr>t_connected := False\<rparr>) (connection s)"

definition reopened_transport :: "client \<Rightarrow> transport option" where
  "reopened_transport s =
     map_option (\<lambda>t. t\<lparr>t_connected := True,
        t_callbacks := t_callbacks t @ [(''read'', ''on_data''), (''error'', ''on_data_error'')]\<rparr>)
       (connection s)"

definition reconnect_log :: "nat \<Rightarrow> event" where
  "reconnect_log delay =
     (if delay > 0
      then Log Error ''Unexpected disconnect. Attempting to reconnect within %s seconds.'' [PInt (int delay)]
      else Log Error ''Unexpected disconnect. Attempting to reconnect.'' [])"

definition giving_up_log :: event where
  "giving_up_log = Log Error ''Unexpected disconnect. Giving up.'' []"

definition session_reset :: "client \<Rightarrow> transport option \<Rightarrow> event list \<Rightarrow> client" where
  "session_reset s conn evs =
     s\<lparr>channels := Map.empty, users := Map.empty, receive_buffer := [],
       logger := logger_root, nickname := UNREGISTERED_NICKNAME, network := None,
       connection := conn, trace := trace s @ evs\<rparr>"

definition connected_client :: client where
  "connected_client =
     state_of (connect (Some ''irc.example.com'') (Some 6667) False no_kwargs example_client)"

definition reconnect_events :: "nat \<Rightarrow> event list" where
  "reconnect_events d =
     [TransportDisconnect, reconnect_log d, Sleep d, TransportConnect,
      TransportOn ''read'' ''on_data'', TransportOn ''error'' ''on_data_error'']"

definition scenario_client :: client where
  "scenario_client =
     connected_client\<lparr>RECONNECT_MAX_ATTEMPTS := Some 2, RECONNECT_DELAYS := [0, 30]\<rparr>"

text \<open>
  A run of registry operations is free of self-renames when no \<^verbatim>\<open>_rename_user(a, a)\<close> in it
  meets \<open>a\<close> as a member of a channel, in the state the run has reached by then.
\<close>

fun renames_member_to_itself :: "op \<Rightarrow> client \<Rightarrow> bool" where
  "renames_member_to_itself (RenameUser a b) s = (a = b \<and> in_any_channel a s)"
| "renames_member_to_itself x s = False"

fun no_self_rename :: "op list \<Rightarrow> client \<Rightarrow> bool" where
  "no_self_rename [] s = True"
| "no_self_rename (x # xs) s =
     (\<not> renames_member_to_itself x s \<and> no_self_rename xs (state_of (apply_op x s)))"

text \<open>A run on \<open>roundtrip_client\<close>, whose channel has a member: a rename of the member, a
  sync, a self-rename of a user that is in no channel, a new channel, the removal of the
  member from a channel it is not in (its user entry stays: it is a member elsewhere),
  and two operations that raise.\<close>

definition registry_ops :: "op list" where
  "registry_ops =
     [RenameUser ''a'' ''z'', SyncUser ''bob'' [''username'' \<mapsto> PStr ''b''],
      RenameUser ''bob'' ''bob'', CreateChannel ''#d'', DestroyUser ''z'' (Some ''#d''),
      DestroyUser ''q'' None, DestroyChannel ''#c'']"

text \<open>
  An instance of the codec and of two command hooks, for the scenario of a faulty hook:
  messages are lines, a line is its own command, the hook for \<^verbatim>\<open>PRIVMSG\<close> raises and the
  hook for \<^verbatim>\<open>PING\<close> sends \<^verbatim>\<open>PONG\<close>.
\<close>

definition newline :: char where
  "newline = CHR 0x0A"

definition line_has_message :: "client \<Rightarrow> bool" where
  "line_has_message s = (newline \<in> set (receive_buffer s))"

definition line_message :: "string \<Rightarrow> message" where
  "line_message line =
     \<lparr>m_source = None, m_command = Word line, m_params = [], m_valid = True, m_raw = line\<rparr>"

definition line_parse_message :: "client \<Rightarrow> message \<times> client" where
  "line_parse_message s =
     (line_message (takeWhile (\<lambda>c. c \<noteq> newline) (receive_buffer s)),
      s\<lparr>receive_buffer := drop 1 (dropWhile (\<lambda>c. c \<noteq> newline) (receive_buffer s))\<rparr>)"

definition failing_privmsg :: handler where
  "failing_privmsg m s = Raised (HandlerFault ''privmsg hook'') s"

definition answer_ping :: handler where
  "answer_ping m s = Ok (emit (TransportSend ''PONG'') s)"

definition example_hooks :: hooks where
  "example_hooks =
     \<lparr>handlers = [''on_raw_privmsg'' \<mapsto> failing_privmsg, ''on_raw_ping'' \<mapsto> answer_ping],
      has_message = (\<lambda>s. Inr (line_has_message s)),
      parse_message = (\<lambda>s. Inr (line_parse_message s))\<rparr>"

definition two_lines :: string where
  "two_lines = ''PRIVMSG'' @ [newline] @ ''PING'' @ [newline]"

text \<open>
  An instance of the pool's parameters, for the fairness scenario: a client is a name with
  a count of pending messages, it has a message when the count is positive, and polling
  it returns its name and takes one message off.
\<close>

definition busy_a :: "string \<times> nat" where
  "busy_a = (''A'', 2)"

definition idle_b :: "string \<times> nat" where
  "idle_b = (''B'', 0)"

definition busy_c :: "string \<times> nat" where
  "busy_c = (''C'', 1)"

definition counting_hooks :: "(string \<times> nat, string) pool_hooks" where
  "counting_hooks =
     \<lparr>client_has_message = (\<lambda>c. Inr (0 < snd c)),
      client_poll_single = (\<lambda>c. (fst c, (fst c, snd c - 1))),
      connpool_has_message = list_ex (\<lambda>c. 0 < snd c)\<rparr>"

section \<open>Properties\<close>

subsection \<open>The registry\<close>

lemma example_registry:
  "channels example_client = Map.empty" "users example_client = Map.empty"
  by (simp_all add: example_client_def init_def reset_attributes_def)

lemma channels_sync_user: "channels (sync_user n md s) = channels s"
  by (simp add: sync_user_def create_user_def Let_def)

lemma dom_users_sync_user:
  "dom (users (sync_user n md s)) = (if is_server n then dom (users s) else insert n (dom (users s)))"
  by (auto simp: sync_user_def create_user_def Let_def is_server_def)

lemma dom_users_rename_user:
  "dom (users (rename_user a b s)) =
     (if a \<in> dom (users s) then insert b (dom (users s)) - {a} else insert b (dom (users s)))"
  by (auto simp: rename_user_def create_user_def Let_def split: option.splits)

lemma channels_rename_user:
  "channels (rename_user a b s) c = map_option (rename_in_channel a b) (channels s c)"
  by (auto simp: rename_user_def create_user_def Let_def split: option.splits)

lemma destroy_channel_state: "state_of (destroy_channel c s) = s"
  by (auto simp: destroy_channel_def set_slice_copy_def split: option.splits)

lemma dom_users_destroy_user: "dom (users (state_of (destroy_user n c s))) \<subseteq> dom (users s)"
  by (auto simp: destroy_user_def del_user_def Let_def split: option.splits if_splits)

lemma members_empty_apply_op:
  "members_empty s \<Longrightarrow> members_empty (state_of (apply_op x s))"
proof (cases x)
  case (DestroyUser n c)
  assume "members_empty s"
  then show ?thesis using DestroyUser
    by (auto simp: members_empty_def destroy_user_def del_user_def discard_user_def Let_def dom_def
        split: option.splits if_splits)
next
  case (RenameUser a b)
  assume "members_empty s"
  then show ?thesis using RenameUser
    by (auto simp: members_empty_def channels_rename_user rename_in_channel_def dom_def)
qed (auto simp: members_empty_def create_channel_def create_user_def channels_sync_user destroy_channel_state)

lemma members_empty_run_ops: "members_empty s \<Longrightarrow> members_empty (run_ops xs s)"
  by (induction xs arbitrary: s) (auto simp: members_empty_apply_op)

lemma dom_channels_rename_user: "dom (channels (rename_user a b s)) = dom (channels s)"
  by (auto simp: channels_rename_user dom_def)

lemma members_rename_user:
  "c \<in> dom (channels s) \<Longrightarrow>
   ch_users (the (channels (rename_user a b s) c)) =
     (if a \<in> ch_users (the (channels s c))
      then insert b (ch_users (the (channels s c)) - {a})
      else ch_users (the (channels s c)))"
  by (auto simp: channels_rename_user rename_in_channel_def dom_def)

lemma no_dangling_rename_user:
  assumes "no_dangling s" and "a = b \<Longrightarrow> \<not> in_any_channel a s"
  shows "no_dangling (rename_user a b s)"
  unfolding no_dangling_def
proof (intro ballI)
  fix c n
  assume c: "c \<in> dom (channels (rename_user a b s))"
    and n: "n \<in> ch_users (the (channels (rename_user a b s) c))"
  from c have c': "c \<in> dom (channels s)" by (simp add: dom_channels_rename_user)
  let ?U = "ch_users (the (channels s c))"
  from assms(1) c' have U: "\<forall>m \<in> ?U. m \<in> dom (users s)" by (simp add: no_dangling_def)
  show "n \<in> dom (users (rename_user a b s))"
  proof (cases "a \<in> ?U")
    case True
    with c' assms(2) have ab: "a \<noteq> b" by (auto simp: in_any_channel_def)
    from True n c' have "n = b \<or> (n \<in> ?U \<and> n \<noteq> a)" by (auto simp: members_rename_user)
    with U ab show ?thesis by (auto simp: dom_users_rename_user)
  next
    case False
    with n c' have "n \<in> ?U" "n \<noteq> a" by (auto simp: members_rename_user)
    with U show ?thesis by (auto simp: dom_users_rename_user)
  qed
qed

lemma no_dangling_destroy_user:
  assumes "no_dangling s"
  shows "no_dangling (state_of (destroy_user n c s))"
  using assms unfolding no_dangling_def
  by (auto simp: destroy_user_def del_user_def discard_user_def in_any_channel_def Let_def dom_def
      split: option.splits if_splits)

lemma no_dangling_apply_op:
  assumes "no_dangling s"
    and "\<And>a. x = RenameUser a a \<Longrightarrow> \<not> in_any_channel a s"
  shows "no_dangling (state_of (apply_op x s))"
proof (cases x)
  case (CreateChannel c)
  with assms(1) show ?thesis by (auto simp: no_dangling_def create_channel_def)
next
  case (DestroyChannel c)
  with assms(1) show ?thesis by (simp add: destroy_channel_state)
next
  case (CreateUser n)
  with assms(1) show ?thesis by (auto simp: no_dangling_def create_user_def)
next
  case (SyncUser n md)
  with assms(1) show ?thesis
    by (auto simp: no_dangling_def channels_sync_user dom_users_sync_user)
next
  case (RenameUser a b)
  with assms(2) have "a = b \<Longrightarrow> \<not> in_any_channel a s" by simp
  with assms(1) RenameUser show ?thesis by (simp add: no_dangling_rename_user)
next
  case (DestroyUser n c)
  with assms(1) show ?thesis by (simp add: no_dangling_destroy_user)
qed

text \<open>
  C1. \<^verbatim>\<open>_destroy_channel\<close> on a channel of the registry never reaches its loop: slicing
  the member set raises TypeError, and the registry (channel entry, members, user table)
  is left exactly as it was. No member is removed and the channel is not deleted.
\<close>

theorem destroy_channel_raises:
  "c \<in> dom (channels s) \<Longrightarrow> destroy_channel c s = Raised TypeError s"
  by (auto simp: destroy_channel_def set_slice_copy_def)

theorem destroy_channel_raises_witness:
  "''#test'' \<in> dom (channels (create_channel ''#test'' example_client)) \<and>
   destroy_channel ''#test'' (create_channel ''#test'' example_client)
     = Raised TypeError (create_channel ''#test'' example_client)"
proof -
  have m: "''#test'' \<in> dom (channels (create_channel ''#test'' example_client))"
    by (simp add: create_channel_def)
  from m destroy_channel_raises [OF m] show ?thesis by (rule conjI)
qed

lemma no_dangling_step:
  "no_dangling s \<Longrightarrow> \<not> renames_member_to_itself x s \<Longrightarrow> no_dangling (state_of (apply_op x s))"
  by (rule no_dangling_apply_op) auto

lemma no_dangling_run:
  "no_dangling s \<Longrightarrow> no_self_rename xs s \<Longrightarrow> no_dangling (run_ops xs s)"
  by (induction xs arbitrary: s) (simp_all add: no_dangling_step)

lemma members_empty_not_member: "members_empty s \<Longrightarrow> \<not> in_any_channel n s"
  by (auto simp: members_empty_def in_any_channel_def)

lemma members_empty_no_self_rename: "members_empty s \<Longrightarrow> no_self_rename xs s"
proof (induction xs arbitrary: s)
  case Nil
  show ?case by simp
next
  case (Cons x xs)
  from Cons.prems have "\<not> renames_member_to_itself x s"
    by (cases x) (simp_all add: members_empty_not_member)
  moreover from Cons.prems have "members_empty (state_of (apply_op x s))"
    by (rule members_empty_apply_op)
  ultimately show ?case by (simp add: Cons.IH)
qed

lemma rename_user_self_dangling:
  assumes "a \<in> dom (users s)" and "in_any_channel a s"
  shows "\<not> no_dangling (rename_user a a s)"
proof -
  from assms(2) obtain c where c: "c \<in> dom (channels s)" "a \<in> ch_users (the (channels s c))"
    by (auto simp: in_any_channel_def)
  then have "c \<in> dom (channels (rename_user a a s))"
    "a \<in> ch_users (the (channels (rename_user a a s) c))"
    by (simp_all add: dom_channels_rename_user members_rename_user)
  moreover have "a \<notin> dom (users (rename_user a a s))"
    using assms(1) by (simp add: dom_users_rename_user)
  ultimately show ?thesis unfolding no_dangling_def by blast
qed

lemma roundtrip_registry:
  "dom (users roundtrip_client) = {''a''}"
  "channels roundtrip_client = [''#c'' \<mapsto> \<lparr>ch_users = {''a''}\<rparr>]"
  by (simp_all add: roundtrip_client_def create_user_def example_registry)

lemma no_dangling_roundtrip_client: "no_dangling roundtrip_client"
  by (simp add: no_dangling_def roundtrip_registry)

lemma registry_ops_run:
  "\<not> in_any_channel ''bob''
       (sync_user ''bob'' [''username'' \<mapsto> PStr ''b''] (rename_user ''a'' ''z'' roundtrip_client))"
  "channels (run_ops registry_ops roundtrip_client) =
     [''#c'' \<mapsto> \<lparr>ch_users = {''z''}\<rparr>, ''#d'' \<mapsto> \<lparr>ch_users = {}\<rparr>]"
  "dom (users (run_ops registry_ops roundtrip_client)) = {''z''}"
proof -
  let ?md = "[''username'' \<mapsto> PStr ''b'']"
  let ?s1 = "rename_user ''a'' ''z'' roundtrip_client"
  let ?s2 = "sync_user ''bob'' ?md ?s1"
  let ?s3 = "rename_user ''bob'' ''bob'' ?s2"
  let ?s4 = "create_channel ''#d'' ?s3"
  let ?s5 = "state_of (destroy_user ''z'' (Some ''#d'') ?s4)"
  let ?s6 = "state_of (destroy_user ''q'' None ?s5)"
  have c1: "channels ?s1 = [''#c'' \<mapsto> \<lparr>ch_users = {''z''}\<rparr>]"
    by (auto simp: fun_eq_iff channels_rename_user roundtrip_registry rename_in_channel_def)
  have u1: "dom (users ?s1) = {''z''}"
    by (auto simp: dom_users_rename_user roundtrip_registry)
  have c2: "channels ?s2 = [''#c'' \<mapsto> \<lparr>ch_users = {''z''}\<rparr>]"
    by (simp add: channels_sync_user c1)
  have u2: "dom (users ?s2) = {''bob'', ''z''}"
    by (auto simp: dom_users_sync_user u1 is_server_def)
  show "\<not> in_any_channel ''bob'' ?s2"
    by (simp add: in_any_channel_def c2)
  have c3: "channels ?s3 = [''#c'' \<mapsto> \<lparr>ch_users = {''z''}\<rparr>]"
    by (auto simp: fun_eq_iff channels_rename_user c2 rename_in_channel_def)
  have u3: "dom (users ?s3) = {''z''}"
    by (auto simp: dom_users_rename_user u2)
  have c4: "channels ?s4 = [''#c'' \<mapsto> \<lparr>ch_users = {''z''}\<rparr>, ''#d'' \<mapsto> \<lparr>ch_users = {}\<rparr>]"
    by (simp add: create_channel_def c3)
  have u4: "dom (users ?s4) = {''z''}"
    by (simp add: create_channel_def u3)
  have s5: "?s5 = ?s4"
    by (simp add: destroy_user_def truthy_str_def c4 discard_user_def in_any_channel_def Let_def)
  have q: "''q'' \<notin> dom (users ?s4)" by (simp add: u4)
  have c6: "channels ?s6 = channels ?s4"
    unfolding s5 using q
    by (auto simp: destroy_user_def truthy_str_def del_user_def c4 discard_user_def fun_eq_iff)
  have u6: "users ?s6 = users ?s4"
    unfolding s5 using q
    by (simp add: destroy_user_def truthy_str_def del_user_def)
  have run: "run_ops registry_ops roundtrip_client = ?s6"
    by (simp add: registry_ops_def destroy_channel_state)
  show "channels (run_ops registry_ops roundtrip_client) =
     [''#c'' \<mapsto> \<lparr>ch_users = {''z''}\<rparr>, ''#d'' \<mapsto> \<lparr>ch_users = {}\<rparr>]"
    unfolding run c6 by (rule c4)
  show "dom (users (run_ops registry_ops roundtrip_client)) = {''z''}"
    unfolding run u6 by (rule u4)
qed

text \<open>
  C3. From an empty registry, after every sequence of the six registry operations (an
  operation that raises leaves the state it reached), every nickname in a channel's member
  set is a key of the user table. The six operations put no nickname into an empty member
  set (handlers outside this file add members), so the statement is also proved from
  every registry that has no dangling member, whatever its member sets: the invariant is
  kept by every run that is free of self-renames. On a run from an empty registry the
  member sets stay empty, every run is free of self-renames, and the first statement
  follows from the second.
\<close>

theorem no_dangling_run_ops:
  "no_dangling (run_ops ops (reset_attributes s)) \<and>
   (no_dangling s \<and> no_self_rename ops s \<longrightarrow> no_dangling (run_ops ops s))"
proof -
  have e: "members_empty (reset_attributes s)"
    by (simp add: members_empty_def reset_attributes_def)
  have "no_dangling (reset_attributes s)"
    by (simp add: no_dangling_def reset_attributes_def)
  moreover from e have "no_self_rename ops (reset_attributes s)"
    by (rule members_empty_no_self_rename)
  ultimately have "no_dangling (run_ops ops (reset_attributes s))"
    by (rule no_dangling_run)
  then show ?thesis by (simp add: no_dangling_run)
qed

theorem no_dangling_run_ops_witness:
  "no_dangling roundtrip_client \<and> no_self_rename registry_ops roundtrip_client \<and>
   no_dangling (run_ops registry_ops roundtrip_client) \<and>
   ch_users (the (channels (run_ops registry_ops roundtrip_client) ''#c'')) = {''z''} \<and>
   dom (users (run_ops registry_ops roundtrip_client)) = {''z''}"
proof -
  have a: "no_dangling roundtrip_client" by (rule no_dangling_roundtrip_client)
  have b: "no_self_rename registry_ops roundtrip_client"
    using registry_ops_run(1) by (simp add: registry_ops_def)
  from a b no_dangling_run_ops [of registry_ops roundtrip_client]
  have c: "no_dangling (run_ops registry_ops roundtrip_client)" by blast
  have d: "ch_users (the (channels (run_ops registry_ops roundtrip_client) ''#c'')) = {''z''}"
    by (simp add: registry_ops_run(2))
  from a b c d registry_ops_run(3) show ?thesis by (intro conjI)
qed

text \<open>The exception is real: renaming a channel member to its own name deletes its user
  entry and leaves the member.\<close>

lemma rename_to_itself_breaks:
  "no_dangling roundtrip_client \<and> \<not> no_dangling (rename_user ''a'' ''a'' roundtrip_client)"
proof -
  have "''a'' \<in> dom (users roundtrip_client)" by (simp add: roundtrip_registry)
  moreover have "in_any_channel ''a'' roundtrip_client"
    by (simp add: in_any_channel_def roundtrip_registry)
  ultimately have "\<not> no_dangling (rename_user ''a'' ''a'' roundtrip_client)"
    by (rule rename_user_self_dangling)
  with no_dangling_roundtrip_client show ?thesis by simp
qed

text \<open>
  C4, as stated, fails: \<^verbatim>\<open>_rename_user\<close> (and \<^verbatim>\<open>_create_user\<close>) write the key they are
  given, server name or not.
\<close>

theorem rename_user_server_key:
  "is_server ''irc.example.net'' \<and>
   ''irc.example.net'' \<in> dom (users (run_ops [CreateUser ''bob'', RenameUser ''bob'' ''irc.example.net'']
       (reset_attributes example_client)))"
  by (simp add: is_server_def dom_users_rename_user create_user_def)

lemma no_server_keys_apply_op:
  "no_server_keys s \<Longrightarrow> \<not> names_server x \<Longrightarrow> no_server_keys (state_of (apply_op x s))"
proof (cases x)
  case (DestroyUser n c)
  assume "no_server_keys s"
  with DestroyUser dom_users_destroy_user [of n c s] show ?thesis
    by (auto simp: no_server_keys_def)
qed (auto simp: no_server_keys_def create_channel_def create_user_def dom_users_sync_user
      dom_users_rename_user destroy_channel_state split: if_splits)

lemma no_server_keys_run_ops:
  "no_server_keys s \<Longrightarrow> \<forall>x \<in> set ops. \<not> names_server x \<Longrightarrow> no_server_keys (run_ops ops s)"
  by (induction ops arbitrary: s) (auto simp: no_server_keys_apply_op)

text \<open>
  C4, amended. \<^verbatim>\<open>_sync_user\<close> with a server name changes nothing at all, and a run of
  registry operations in which no \<^verbatim>\<open>_create_user\<close> and no \<^verbatim>\<open>_rename_user\<close> is given a
  server name as the new key keeps a user table free of server names.
\<close>

theorem server_keys_only_by_create_or_rename:
  "(is_server nick \<longrightarrow> sync_user nick md s = s) \<and>
   (no_server_keys s \<and> (\<forall>x \<in> set ops. \<not> names_server x) \<longrightarrow> no_server_keys (run_ops ops s))"
  by (auto simp: no_server_keys_run_ops sync_user_def is_server_def)

theorem server_keys_only_by_create_or_rename_witness:
  "is_server ''irc.example.net'' \<and>
   sync_user ''irc.example.net'' [''username'' \<mapsto> PStr ''x''] example_client = example_client \<and>
   no_server_keys example_client \<and>
   no_server_keys (run_ops [SyncUser ''irc.example.net'' Map.empty, RenameUser ''irc.example.net'' ''bob'']
      example_client)"
proof -
  have a: "is_server ''irc.example.net''" by (simp add: is_server_def)
  have b: "no_server_keys example_client" by (simp add: no_server_keys_def example_registry)
  have c: "\<forall>x \<in> set [SyncUser ''irc.example.net'' Map.empty, RenameUser ''irc.example.net'' ''bob'']. \<not> names_server x"
    by (simp add: is_server_def)
  note t = server_keys_only_by_create_or_rename
    [of "''irc.example.net''" "[''username'' \<mapsto> PStr ''x'']" example_client
        "[SyncUser ''irc.example.net'' Map.empty, RenameUser ''irc.example.net'' ''bob'']"]
  from t a have d: "sync_user ''irc.example.net'' [''username'' \<mapsto> PStr ''x''] example_client = example_client"
    by (rule conjunct1 [THEN mp])
  from t b c have e: "no_server_keys (run_ops [SyncUser ''irc.example.net'' Map.empty, RenameUser ''irc.example.net'' ''bob''] example_client)"
    by (intro conjunct2 [THEN mp, OF t] conjI)
  from a d b e show ?thesis by (intro conjI)
qed

text \<open>
  C9, as stated, fails: the first rename overwrites the stored \<^verbatim>\<open>nickname\<close> field, so a
  user whose stored nickname differs from its key (here after a \<^verbatim>\<open>_sync_user\<close> whose patch
  carries another nickname) does not get it back.
\<close>

theorem rename_user_roundtrip_nickname_field:
  "''a'' \<in> dom (users (sync_user ''a'' [''nickname'' \<mapsto> PStr ''x''] example_client)) \<and>
   ''b'' \<notin> dom (users (sync_user ''a'' [''nickname'' \<mapsto> PStr ''x''] example_client)) \<and>
   the (users (sync_user ''a'' [''nickname'' \<mapsto> PStr ''x''] example_client) ''a'') ''nickname''
     = Some (PStr ''x'') \<and>
   the (users (rename_user ''b'' ''a'' (rename_user ''a'' ''b''
          (sync_user ''a'' [''nickname'' \<mapsto> PStr ''x''] example_client))) ''a'') ''nickname''
     = Some (PStr ''a'')"
  by (simp add: sync_user_def create_user_def rename_user_def Let_def example_registry
      is_same_nick_def)

text \<open>The round trip also needs \<open>b\<close> outside every member set: a member \<open>b\<close> that is
  not a user comes back as \<open>a\<close>.\<close>

lemma rename_user_roundtrip_dangling_member:
  "ch_users (the (channels (rename_user ''b'' ''a'' (rename_user ''a'' ''b''
      ((create_user ''a'' example_client)\<lparr>channels := [''#c'' \<mapsto> \<lparr>ch_users = {''b''}\<rparr>]\<rparr>))) ''#c''))
     = {''a''}"
  by (simp add: channels_rename_user rename_in_channel_def)

lemma rename_in_channel_roundtrip:
  "b \<notin> ch_users ch \<Longrightarrow> rename_in_channel b a (rename_in_channel a b ch) = ch"
  by (cases "a = b") (auto simp: rename_in_channel_def insert_absorb)

text \<open>
  C9, amended. When \<open>a\<close> is a user whose stored nickname is \<open>a\<close>, \<open>b\<close> is not a user
  and is a member of no channel, renaming \<open>a\<close> to \<open>b\<close> and back restores the whole
  client: every user entry with all its fields and every channel's member set.
\<close>

theorem rename_user_roundtrip:
  assumes "users s a = Some u" and "u ''nickname'' = Some (PStr a)"
    and "users s b = None" and "\<not> in_any_channel b s"
  shows "rename_user b a (rename_user a b s) = s"
proof -
  from assms(1,3) have ab: "a \<noteq> b" by auto
  have us: "users (rename_user b a (rename_user a b s)) = users s"
    using assms(1,2,3) ab
    by (auto simp: rename_user_def Let_def fun_upd_idem fun_upd_twist intro!: ext)
  have ch: "channels (rename_user b a (rename_user a b s)) = channels s"
  proof (rule ext)
    fix c
    show "channels (rename_user b a (rename_user a b s)) c = channels s c"
    proof (cases "channels s c")
      case None
      then show ?thesis by (simp add: channels_rename_user)
    next
      case (Some chan)
      then have "c \<in> dom (channels s)" by (simp add: domI)
      with assms(4) have "b \<notin> ch_users (the (channels s c))"
        unfolding in_any_channel_def by blast
      with Some have "b \<notin> ch_users chan" by simp
      with Some show ?thesis by (simp add: channels_rename_user rename_in_channel_roundtrip)
    qed
  qed
  have rest: "rename_user b a (rename_user a b s) = s\<lparr>users := users (rename_user b a (rename_user a b s)), channels := channels (rename_user b a (rename_user a b s))\<rparr>"
    using assms(1) ab by (simp add: rename_user_def Let_def create_user_def split: option.splits)
  show ?thesis by (subst rest) (simp add: us ch)
qed

theorem rename_user_roundtrip_witness:
  "users roundtrip_client ''a'' =
     Some [''nickname'' \<mapsto> PStr ''a'', ''username'' \<mapsto> PNone,
           ''realname'' \<mapsto> PNone, ''hostname'' \<mapsto> PNone] \<and>
   users roundtrip_client ''b'' = None \<and>
   \<not> in_any_channel ''b'' roundtrip_client \<and>
   in_any_channel ''a'' roundtrip_client \<and>
   rename_user ''b'' ''a'' (rename_user ''a'' ''b'' roundtrip_client) = roundtrip_client"
proof -
  have u: "users roundtrip_client ''a'' =
     Some [''nickname'' \<mapsto> PStr ''a'', ''username'' \<mapsto> PNone,
           ''realname'' \<mapsto> PNone, ''hostname'' \<mapsto> PNone]"
    by (simp add: roundtrip_client_def create_user_def example_registry)
  have n: "[''nickname'' \<mapsto> PStr ''a'', ''username'' \<mapsto> PNone,
           ''realname'' \<mapsto> PNone, ''hostname'' \<mapsto> PNone] ''nickname'' = Some (PStr ''a'')"
    by simp
  have b: "users roundtrip_client ''b'' = None"
    by (simp add: roundtrip_client_def create_user_def example_registry)
  have m: "\<not> in_any_channel ''b'' roundtrip_client"
    by (simp add: roundtrip_client_def in_any_channel_def)
  have a: "in_any_channel ''a'' roundtrip_client"
    by (simp add: roundtrip_client_def in_any_channel_def)
  from u b m a rename_user_roundtrip [OF u n b m] show ?thesis by (intro conjI)
qed

subsection \<open>The reconnect delay\<close>

lemma reconnect_delay_disabled:
  "\<not> (RECONNECT_ON_ERROR s \<and> RECONNECT_DELAYED s) \<Longrightarrow> reconnect_delay s = Inr 0"
  by (auto simp: reconnect_delay_def)

lemma reconnect_delay_within:
  "RECONNECT_ON_ERROR s \<Longrightarrow> RECONNECT_DELAYED s \<Longrightarrow>
   reconnect_attempts s < length (RECONNECT_DELAYS s) \<Longrightarrow>
   reconnect_delay s = Inr (RECONNECT_DELAYS s ! reconnect_attempts s)"
  by (simp add: reconnect_delay_def list_getitem_def)

lemma reconnect_delay_beyond:
  "RECONNECT_ON_ERROR s \<Longrightarrow> RECONNECT_DELAYED s \<Longrightarrow>
   length (RECONNECT_DELAYS s) < reconnect_attempts s \<Longrightarrow> RECONNECT_DELAYS s \<noteq> [] \<Longrightarrow>
   reconnect_delay s = Inr (last (RECONNECT_DELAYS s))"
proof -
  assume a: "RECONNECT_ON_ERROR s" "RECONNECT_DELAYED s"
    "length (RECONNECT_DELAYS s) < reconnect_attempts s" "RECONNECT_DELAYS s \<noteq> []"
  let ?n = "length (RECONNECT_DELAYS s)"
  from a(4) have pos: "Suc 0 \<le> ?n" by (cases "RECONNECT_DELAYS s") simp_all
  then have "nat (int ?n + - 1) = ?n - 1" by simp
  with a pos show ?thesis
    by (simp add: reconnect_delay_def list_getitem_def last_conv_nth)
qed

lemma example_config:
  "RECONNECT_ON_ERROR example_client" "RECONNECT_DELAYED example_client"
  "RECONNECT_DELAYS example_client = [0, 30, 120, 600]"
  "RECONNECT_MAX_ATTEMPTS example_client = Some 3"
  by (simp_all add: example_client_def init_def reset_attributes_def
      reset_connection_attributes_def)

text \<open>
  C2. With backoff enabled, an attempt count equal to the length of the schedule is
  neither capped nor in range: the comparison is strict, so the code indexes the schedule
  one past its end and raises IndexError. (Below the length it returns the entry,
  above it the last entry, and 0 when backoff is off: the three lemmas above.)
\<close>

theorem reconnect_delay_at_schedule_length:
  "RECONNECT_ON_ERROR s \<Longrightarrow> RECONNECT_DELAYED s \<Longrightarrow>
   reconnect_attempts s = length (RECONNECT_DELAYS s) \<Longrightarrow>
   reconnect_delay s = Inl IndexError"
  by (simp add: reconnect_delay_def list_getitem_def)

theorem reconnect_delay_at_schedule_length_witness:
  "RECONNECT_ON_ERROR (example_client\<lparr>reconnect_attempts := 4\<rparr>) \<and>
   RECONNECT_DELAYED (example_client\<lparr>reconnect_attempts := 4\<rparr>) \<and>
   RECONNECT_DELAYS (example_client\<lparr>reconnect_attempts := 4\<rparr>) = [0, 30, 120, 600] \<and>
   reconnect_delay (example_client\<lparr>reconnect_attempts := 4\<rparr>) = Inl IndexError"
proof -
  let ?s = "example_client\<lparr>reconnect_attempts := 4\<rparr>"
  have a: "RECONNECT_ON_ERROR ?s" by (simp add: example_config)
  have b: "RECONNECT_DELAYED ?s" by (simp add: example_config)
  have d: "RECONNECT_DELAYS ?s = [0, 30, 120, 600]" by (simp add: example_config)
  have c: "reconnect_attempts ?s = length (RECONNECT_DELAYS ?s)" by (simp add: example_config)
  from a b d reconnect_delay_at_schedule_length [OF a b c] show ?thesis by (intro conjI)
qed

subsection \<open>Connecting\<close>

lemma reconnect_delay_error: "reconnect_delay s = Inl e \<Longrightarrow> e = IndexError"
  by (auto simp: reconnect_delay_def list_getitem_def split: if_splits)

lemma no_ValueError_inside:
  "(raised (connect host port reconnect kw s) = Some ValueError \<longrightarrow>
      (\<not> truthy_str host \<or> \<not> truthy_int port) \<and> \<not> reconnect)"
  "raised (disconnect s') \<noteq> Some ValueError"
  "raised (on_disconnect expected s'') \<noteq> Some ValueError"
proof (induction host port reconnect kw s and s' and expected s''
    rule: connect_disconnect_on_disconnect.induct)
  case (1 host port reconnect kw s)
  show ?case
  proof (cases "(\<not> truthy_str host \<or> \<not> truthy_int port) \<and> \<not> reconnect")
    case True
    then show ?thesis by simp
  next
    case False
    show ?thesis
    proof (cases "connected s")
      case True
      with False 1 have "raised (disconnect s) \<noteq> Some ValueError" by simp
      with False True show ?thesis
        by (subst connect.simps) (auto simp: Let_def split: outcome.splits option.splits)
    next
      case nc: False
      with False show ?thesis
        by (subst connect.simps) (auto simp: Let_def split: outcome.splits option.splits)
    qed
  qed
next
  case (2 s)
  then show ?case
    by (subst disconnect.simps) (auto split: outcome.splits)
next
  case (3 expected s)
  then show ?case
    by (subst on_disconnect.simps)
       (auto split: sum.splits dest: reconnect_delay_error)
qed


text \<open>
  C5, as stated, fails: the check is \<^verbatim>\<open>not hostname or not port\<close>, so a host without a
  port (or a port without a host) is refused too.
\<close>

theorem connect_host_without_port:
  "truthy_str (Some ''irc.example.com'') \<and>
   connect (Some ''irc.example.com'') None False no_kwargs example_client
     = Raised ValueError example_client"
  by (subst connect.simps) (simp add: truthy_str_def truthy_int_def)


text \<open>
  C5, amended. \<^verbatim>\<open>connect\<close> raises ValueError exactly when the host or the port is unset
  (\<^verbatim>\<open>None\<close>, an empty host, port 0) and \<^verbatim>\<open>reconnect\<close> is false; it then returns with
  the client exactly as it was. No nested call (the disconnect of a connected client, the
  reconnect of its disconnect callback) raises ValueError.
\<close>

theorem connect_ValueError_iff:
  "(raised (connect host port reconnect kw s) = Some ValueError) =
     ((\<not> truthy_str host \<or> \<not> truthy_int port) \<and> \<not> reconnect) \<and>
   ((\<not> truthy_str host \<or> \<not> truthy_int port) \<and> \<not> reconnect \<longrightarrow>
      connect host port reconnect kw s = Raised ValueError s)"
proof -
  have a: "(\<not> truthy_str host \<or> \<not> truthy_int port) \<and> \<not> reconnect \<Longrightarrow>
      connect host port reconnect kw s = Raised ValueError s"
    by (subst connect.simps) simp
  from a no_ValueError_inside(1) [of host port reconnect kw s] show ?thesis by auto
qed

theorem connect_ValueError_iff_witness:
  "\<not> truthy_str None \<and> \<not> truthy_int None \<and>
   raised (connect None None False no_kwargs example_client) = Some ValueError \<and>
   connect None None False no_kwargs example_client = Raised ValueError example_client \<and>
   raised (connect None None True no_kwargs example_client) \<noteq> Some ValueError"
proof -
  have g: "(\<not> truthy_str None \<or> \<not> truthy_int None) \<and> \<not> False"
    by (simp add: truthy_str_def truthy_int_def)
  note t = connect_ValueError_iff [of None None False no_kwargs example_client]
  note u = connect_ValueError_iff [of None None True no_kwargs example_client]
  from t g have r: "raised (connect None None False no_kwargs example_client) = Some ValueError"
    by blast
  from t g have e: "connect None None False no_kwargs example_client = Raised ValueError example_client"
    by blast
  from u have n: "raised (connect None None True no_kwargs example_client) \<noteq> Some ValueError"
    by blast
  from g r e n show ?thesis by (simp add: truthy_str_def truthy_int_def)
qed

subsection \<open>Disconnecting and reconnecting\<close>

lemma not_connected_transport_disconnect: "\<not> connected (transport_disconnect s)"
  by (simp add: connected_def transport_disconnect_def emit_def split: option.splits)

lemma disconnect_not_connected: "\<not> connected s \<Longrightarrow> disconnect s = Ok s"
  by (subst disconnect.simps) simp

lemma on_disconnect_expected: "on_disconnect True s = Ok s"
  by (subst on_disconnect.simps) simp

lemma on_disconnect_giving_up:
  "\<not> reconnect_permitted s \<Longrightarrow> on_disconnect False s = Ok (emit giving_up_log s)"
  by (subst on_disconnect.simps) (auto simp: reconnect_permitted_def giving_up_log_def)

lemma on_disconnect_reconnects:
  "reconnect_permitted s \<Longrightarrow> reconnect_delay s = Inr d \<Longrightarrow>
   on_disconnect False s =
     connect None None True no_kwargs
       (emit (Sleep d) (emit (reconnect_log d) (s\<lparr>reconnect_attempts := reconnect_attempts s + 1\<rparr>)))"
  by (subst on_disconnect.simps) (simp add: reconnect_permitted_def reconnect_log_def)

lemma on_disconnect_delay_error:
  "reconnect_permitted s \<Longrightarrow> reconnect_delay s = Inl e \<Longrightarrow> on_disconnect False s = Raised e s"
  by (subst on_disconnect.simps) (simp add: reconnect_permitted_def)

lemma server_tag_Some:
  "connected s \<Longrightarrow> connection s = Some t \<Longrightarrow> truthy_str (t_hostname t) \<Longrightarrow>
   \<exists>tag. server_tag s = Some tag"
  by (simp add: server_tag_def Let_def split: prod.splits)

lemma reconnect_when_closed:
  assumes "\<not> connected s" and "connection s = Some t" and "truthy_str (t_hostname t)"
  shows "\<exists>name. connect None None True no_kwargs s =
     Ok (s\<lparr>connection := reopened_transport s,
           trace := trace s @ [TransportConnect, TransportOn ''read'' ''on_data'',
                      TransportOn ''error'' ''on_data_error''],
           logger := name\<rparr>)"
proof -
  let ?s3 = "connect_inner None None True no_kwargs s"
  have s3: "?s3 = s\<lparr>connection := reopened_transport s,
           trace := trace s @ [TransportConnect, TransportOn ''read'' ''on_data'',
                      TransportOn ''error'' ''on_data_error'']\<rparr>"
    using assms(2)
    by (simp add: connect_inner_def Let_def transport_on_def transport_connect_def emit_def
        reopened_transport_def)
  have "connected ?s3" "connection ?s3 = Some (t\<lparr>t_connected := True,
        t_callbacks := t_callbacks t @ [(''read'', ''on_data''), (''error'', ''on_data_error'')]\<rparr>)"
    using assms(2) by (simp_all add: s3 connected_def reopened_transport_def)
  then obtain tag where tag: "server_tag ?s3 = Some tag"
    using server_tag_Some [of ?s3] assms(3) by auto
  have "connect None None True no_kwargs s = Ok (?s3\<lparr>logger := class_name ?s3 @ '':'' @ tag\<rparr>)"
    using assms(1) tag by (subst connect.simps) (simp add: Let_def)
  then show ?thesis by (auto simp: s3)
qed

lemma reconnect_permitted_frame [simp]:
  "reconnect_permitted (transport_disconnect s) = reconnect_permitted s"
  by (simp add: reconnect_permitted_def transport_disconnect_def emit_def split: option.splits)

lemma reconnect_delay_frame [simp]:
  "reconnect_delay (transport_disconnect s) = reconnect_delay s"
  by (simp add: reconnect_delay_def transport_disconnect_def emit_def)

lemma disconnect_expected:
  assumes "connected s" and "has_quit s"
  shows "disconnect s = Ok (session_reset s (closed_transport s) [TransportDisconnect])"
proof -
  have "on_disconnect (has_quit s) (transport_disconnect s) = Ok (transport_disconnect s)"
    using assms(2) by (simp add: on_disconnect_expected)
  then have "disconnect s = Ok (reset_attributes (transport_disconnect s))"
    using assms(1) by (subst disconnect.simps) simp
  then show ?thesis
    by (simp add: reset_attributes_def transport_disconnect_def emit_def session_reset_def
        closed_transport_def)
qed

lemma disconnect_giving_up:
  assumes "connected s" and "\<not> has_quit s" and "\<not> reconnect_permitted s"
  shows "disconnect s =
     Ok (session_reset s (closed_transport s) [TransportDisconnect, giving_up_log])"
proof -
  have "on_disconnect (has_quit s) (transport_disconnect s)
          = Ok (emit giving_up_log (transport_disconnect s))"
    using assms(2,3) by (simp add: on_disconnect_giving_up)
  then have "disconnect s = Ok (reset_attributes (emit giving_up_log (transport_disconnect s)))"
    using assms(1) by (subst disconnect.simps) simp
  then show ?thesis
    by (simp add: reset_attributes_def transport_disconnect_def emit_def session_reset_def
        closed_transport_def)
qed

lemma disconnect_reconnects:
  assumes "connected s" and "\<not> has_quit s" and "reconnect_permitted s"
    and "reconnect_delay s = Inr d"
    and "connection s = Some t" and "truthy_str (t_hostname t)"
  shows "disconnect s =
     Ok ((session_reset s (reopened_transport s)
           [TransportDisconnect, reconnect_log d, Sleep d, TransportConnect,
            TransportOn ''read'' ''on_data'', TransportOn ''error'' ''on_data_error''])
         \<lparr>reconnect_attempts := reconnect_attempts s + 1\<rparr>)"
proof -
  let ?s1 = "transport_disconnect s"
  let ?s2 = "emit (Sleep d) (emit (reconnect_log d) (?s1\<lparr>reconnect_attempts := reconnect_attempts ?s1 + 1\<rparr>))"
  have od: "on_disconnect (has_quit s) ?s1 = connect None None True no_kwargs ?s2"
    using assms(2,3,4) by (simp add: on_disconnect_reconnects)
  have nc: "\<not> connected ?s2"
    using not_connected_transport_disconnect [of s] by (simp add: connected_def emit_def)
  have c2: "connection ?s2 = Some (t\<lparr>t_connected := False\<rparr>)"
    using assms(5) by (simp add: emit_def transport_disconnect_def)
  have h2: "truthy_str (t_hostname (t\<lparr>t_connected := False\<rparr>))"
    using assms(6) by simp
  from reconnect_when_closed [OF nc c2 h2] obtain name where
    cn: "connect None None True no_kwargs ?s2 =
      Ok (?s2\<lparr>connection := reopened_transport ?s2,
           trace := trace ?s2 @ [TransportConnect, TransportOn ''read'' ''on_data'',
                      TransportOn ''error'' ''on_data_error''],
           logger := name\<rparr>)" by blast
  have "disconnect s = Ok (reset_attributes (?s2\<lparr>connection := reopened_transport ?s2,
           trace := trace ?s2 @ [TransportConnect, TransportOn ''read'' ''on_data'',
                      TransportOn ''error'' ''on_data_error''],
           logger := name\<rparr>))"
    using assms(1) od cn by (subst disconnect.simps) simp
  moreover have "reopened_transport ?s2 = reopened_transport s"
    using assms(5) by (simp add: reopened_transport_def emit_def transport_disconnect_def)
  ultimately show ?thesis
    by (simp add: reset_attributes_def transport_disconnect_def emit_def session_reset_def)
qed

lemma example_client_eq:
  "example_client =
    \<lparr>class_name = ''BasicClient'', RECONNECT_ON_ERROR = True, RECONNECT_MAX_ATTEMPTS = Some 3,
     RECONNECT_DELAYED = True, RECONNECT_DELAYS = [0, 30, 120, 600],
     DEFAULT_PORT = 6667, DEFAULT_ENCODING = ''utf-8'', nicknames = [''alice''],
     username = PStr ''alice'', realname = PStr ''alice'', hostname = None,
     channels = Map.empty, users = Map.empty, receive_buffer = [],
     logger = ''pydle.client'', nickname = ''<unregistered>'', network = None,
     connection = None, encoding = None, has_quit = False,
     autojoin_channels = [], reconnect_attempts = 0, trace = []\<rparr>"
  by (simp add: example_client_def init_def reset_attributes_def reset_connection_attributes_def
      truthy_str_def py_lower_def lower_char_def logger_root_def UNREGISTERED_NICKNAME_def)

lemma tag_example: "server_tag
   (example_client\<lparr>connection := Some \<lparr>t_hostname = Some ''irc.example.com'', t_port = 6667,
        t_source_address = None, t_connected = True,
        t_callbacks = [(''read'', ''on_data''), (''error'', ''on_data_error'')]\<rparr>,
      encoding := Some ''utf-8'',
      trace := [TransportConnect, TransportOn ''read'' ''on_data'',
                TransportOn ''error'' ''on_data_error'']\<rparr>) = Some ''example''"
  by (simp add: example_client_eq server_tag_def connected_def truthy_str_def py_lower_def
      lower_char_def startswith_def rsplit1_def py_int_ok_def strip_def is_space_def
      is_digit_def Let_def)

lemma connected_client_eq:
  "connected_client =
     example_client\<lparr>connection := Some \<lparr>t_hostname = Some ''irc.example.com'', t_port = 6667,
        t_source_address = None, t_connected = True,
        t_callbacks = [(''read'', ''on_data''), (''error'', ''on_data_error'')]\<rparr>,
      encoding := Some ''utf-8'',
      trace := [TransportConnect, TransportOn ''read'' ''on_data'',
                TransportOn ''error'' ''on_data_error''],
      logger := ''BasicClient:example''\<rparr>"
proof -
  have nc: "\<not> connected example_client" by (simp add: example_client_eq connected_def)
  have ci: "connect_inner (Some ''irc.example.com'') (Some 6667) False no_kwargs
       (reset_connection_attributes example_client) =
     example_client\<lparr>connection := Some \<lparr>t_hostname = Some ''irc.example.com'', t_port = 6667,
        t_source_address = None, t_connected = True,
        t_callbacks = [(''read'', ''on_data''), (''error'', ''on_data_error'')]\<rparr>,
      encoding := Some ''utf-8'',
      trace := [TransportConnect, TransportOn ''read'' ''on_data'',
                TransportOn ''error'' ''on_data_error'']\<rparr>"
    by (simp add: example_client_eq connect_inner_def reset_connection_attributes_def Let_def
        no_kwargs_def truthy_int_def transport_on_def transport_connect_def emit_def)
  show ?thesis
    unfolding connected_client_def
    by (subst connect.simps)
       (simp add: nc ci tag_example Let_def truthy_str_def truthy_int_def, simp add: example_client_eq)
qed

lemma connected_client_facts:
  "connected connected_client" "\<not> has_quit connected_client"
  "reconnect_permitted connected_client" "reconnect_delay connected_client = Inr 0"
  "connection connected_client = Some \<lparr>t_hostname = Some ''irc.example.com'', t_port = 6667,
        t_source_address = None, t_connected = True,
        t_callbacks = [(''read'', ''on_data''), (''error'', ''on_data_error'')]\<rparr>"
  "reconnect_attempts connected_client = 0"
  by (simp_all add: connected_client_eq example_client_eq connected_def reconnect_permitted_def
      reconnect_delay_def list_getitem_def)

text \<open>The two ways in which the reconnect inside \<^verbatim>\<open>disconnect\<close> fails: the delay lookup
  raises, or the transport has no host name and the logger name cannot be built. Either
  way the exception leaves \<^verbatim>\<open>disconnect\<close> before \<^verbatim>\<open>_reset_attributes\<close> runs.\<close>

lemma disconnect_delay_error:
  assumes "connected s" and "\<not> has_quit s" and "reconnect_permitted s"
    and "reconnect_delay s = Inl e"
  shows "disconnect s = Raised e (transport_disconnect s)"
proof -
  have "on_disconnect (has_quit s) (transport_disconnect s) = Raised e (transport_disconnect s)"
    using assms(2,3,4) by (simp add: on_disconnect_delay_error)
  then show ?thesis
    using assms(1) by (subst disconnect.simps) simp
qed

lemma disconnect_without_hostname:
  assumes "connected s" and "\<not> has_quit s" and "reconnect_permitted s"
    and "reconnect_delay s = Inr d"
    and "connection s = Some t" and "\<not> truthy_str (t_hostname t)"
  shows "raised (disconnect s) = Some TypeError"
proof -
  let ?s1 = "transport_disconnect s"
  let ?s2 = "emit (Sleep d) (emit (reconnect_log d) (?s1\<lparr>reconnect_attempts := reconnect_attempts ?s1 + 1\<rparr>))"
  let ?s3 = "connect_inner None None True no_kwargs ?s2"
  have od: "on_disconnect (has_quit s) ?s1 = connect None None True no_kwargs ?s2"
    using assms(2,3,4) by (simp add: on_disconnect_reconnects)
  have nc: "\<not> connected ?s2"
    using not_connected_transport_disconnect [of s] by (simp add: connected_def emit_def)
  have "t_hostname (the (connection ?s3)) = t_hostname t"
    using assms(5)
    by (simp add: connect_inner_def Let_def transport_on_def transport_connect_def emit_def
        transport_disconnect_def)
  then have "server_tag ?s3 = None"
    using assms(6) by (simp add: server_tag_def)
  then have "connect None None True no_kwargs ?s2 = Raised TypeError ?s3"
    using nc by (subst connect.simps) (simp add: Let_def)
  then show ?thesis
    using assms(1) od by (subst disconnect.simps) simp
qed

lemma disconnect_at_schedule_length:
  "connected (connected_client\<lparr>RECONNECT_MAX_ATTEMPTS := None, reconnect_attempts := 4\<rparr>) \<and>
   disconnect (connected_client\<lparr>RECONNECT_MAX_ATTEMPTS := None, reconnect_attempts := 4\<rparr>) =
     Raised IndexError
       (transport_disconnect (connected_client\<lparr>RECONNECT_MAX_ATTEMPTS := None, reconnect_attempts := 4\<rparr>))"
proof -
  let ?s = "connected_client\<lparr>RECONNECT_MAX_ATTEMPTS := None, reconnect_attempts := 4\<rparr>"
  have c: "connected ?s" using connected_client_facts(1) by (simp add: connected_def)
  have q: "\<not> has_quit ?s" using connected_client_facts(2) by simp
  have p: "reconnect_permitted ?s" by (simp add: reconnect_permitted_def connected_client_eq example_client_eq)
  have r: "reconnect_delay ?s = Inl IndexError"
    by (simp add: reconnect_delay_def list_getitem_def connected_client_eq example_client_eq)
  from c disconnect_delay_error [OF c q p r] show ?thesis by (rule conjI)
qed

text \<open>
  C10, as stated, fails: \<^verbatim>\<open>disconnect\<close> calls \<^verbatim>\<open>on_disconnect(self._has_quit)\<close>, and with the
  quit flag clear that callback runs the reconnect policy. A connected client with the
  class defaults comes out of \<^verbatim>\<open>disconnect()\<close> with its attempt counter at 1 and its
  transport connected again.
\<close>

theorem disconnect_counts_an_attempt:
  "connected connected_client \<and> reconnect_attempts connected_client = 0 \<and>
   reconnect_attempts (state_of (disconnect connected_client)) = 1 \<and>
   connected (state_of (disconnect connected_client))"
proof -
  have h: "truthy_str (t_hostname \<lparr>t_hostname = Some ''irc.example.com'', t_port = 6667,
        t_source_address = None, t_connected = True,
        t_callbacks = [(''read'', ''on_data''), (''error'', ''on_data_error'')]\<rparr>)"
    by (simp add: truthy_str_def)
  note d = disconnect_reconnects [OF connected_client_facts(1,2,3,4,5) h]
  show ?thesis
    by (simp add: d connected_client_facts session_reset_def connected_def
        reopened_transport_def)
qed

text \<open>
  C10, amended. \<^verbatim>\<open>disconnect\<close> on a client that is not connected changes nothing. On a
  connected client whose quit flag is set, or whose reconnect policy does not permit
  another attempt, it closes the transport (the handle stays in place), resets channels,
  users, receive buffer, logger, nickname and network, and leaves encoding, quit flag,
  auto-join list and attempt counter as they were (\<open>session_reset\<close> updates no other
  field). On a connected client whose quit flag is clear and whose policy permits an
  attempt, when the reconnect delay is defined for the current counter and the transport
  has a host name, it also sleeps for the delay, reopens the same transport and increments
  the attempt counter by one. Nothing is stated for a reconnect whose delay lookup or
  whose logger name fails: there \<^verbatim>\<open>disconnect\<close> raises before \<^verbatim>\<open>_reset_attributes\<close>
  (\<open>disconnect_delay_error\<close>, \<open>disconnect_without_hostname\<close>).
\<close>

theorem disconnect_frame:
  "(\<not> connected s \<longrightarrow> disconnect s = Ok s) \<and>
   (connected s \<and> has_quit s \<longrightarrow>
      disconnect s = Ok (session_reset s (closed_transport s) [TransportDisconnect])) \<and>
   (connected s \<and> \<not> has_quit s \<and> \<not> reconnect_permitted s \<longrightarrow>
      disconnect s = Ok (session_reset s (closed_transport s) [TransportDisconnect, giving_up_log])) \<and>
   (connected s \<and> \<not> has_quit s \<and> reconnect_permitted s \<and> reconnect_delay s = Inr d \<and>
    connection s = Some t \<and> truthy_str (t_hostname t) \<longrightarrow>
      disconnect s =
        Ok ((session_reset s (reopened_transport s)
              [TransportDisconnect, reconnect_log d, Sleep d, TransportConnect,
               TransportOn ''read'' ''on_data'', TransportOn ''error'' ''on_data_error''])
            \<lparr>reconnect_attempts := reconnect_attempts s + 1\<rparr>)) \<and>
   encoding (session_reset s c evs) = encoding s \<and>
   has_quit (session_reset s c evs) = has_quit s \<and>
   autojoin_channels (session_reset s c evs) = autojoin_channels s \<and>
   reconnect_attempts (session_reset s c evs) = reconnect_attempts s \<and>
   channels (session_reset s c evs) = Map.empty \<and>
   users (session_reset s c evs) = Map.empty \<and>
   receive_buffer (session_reset s c evs) = [] \<and>
   nickname (session_reset s c evs) = UNREGISTERED_NICKNAME \<and>
   network (session_reset s c evs) = None"
  using disconnect_not_connected [of s] disconnect_expected [of s] disconnect_giving_up [of s]
    disconnect_reconnects [of s d t]
  by (simp add: session_reset_def)

theorem disconnect_frame_witness:
  "\<not> connected example_client \<and> disconnect example_client = Ok example_client \<and>
   connected (connected_client\<lparr>has_quit := True\<rparr>) \<and>
   disconnect (connected_client\<lparr>has_quit := True\<rparr>) =
     Ok (session_reset (connected_client\<lparr>has_quit := True\<rparr>)
           (closed_transport (connected_client\<lparr>has_quit := True\<rparr>)) [TransportDisconnect]) \<and>
   \<not> reconnect_permitted (connected_client\<lparr>RECONNECT_ON_ERROR := False\<rparr>) \<and>
   disconnect (connected_client\<lparr>RECONNECT_ON_ERROR := False\<rparr>) =
     Ok (session_reset (connected_client\<lparr>RECONNECT_ON_ERROR := False\<rparr>)
           (closed_transport (connected_client\<lparr>RECONNECT_ON_ERROR := False\<rparr>))
           [TransportDisconnect, giving_up_log]) \<and>
   reconnect_permitted connected_client \<and>
   disconnect connected_client =
     Ok ((session_reset connected_client (reopened_transport connected_client)
           [TransportDisconnect, reconnect_log 0, Sleep 0, TransportConnect,
            TransportOn ''read'' ''on_data'', TransportOn ''error'' ''on_data_error''])
         \<lparr>reconnect_attempts := reconnect_attempts connected_client + 1\<rparr>)"
proof -
  let ?q = "connected_client\<lparr>has_quit := True\<rparr>"
  let ?g = "connected_client\<lparr>RECONNECT_ON_ERROR := False\<rparr>"
  let ?t = "\<lparr>t_hostname = Some ''irc.example.com'', t_port = 6667,
        t_source_address = None, t_connected = True,
        t_callbacks = [(''read'', ''on_data''), (''error'', ''on_data_error'')]\<rparr>"
  have a: "\<not> connected example_client" by (simp add: example_client_eq connected_def)
  have b: "connected ?q \<and> has_quit ?q"
    using connected_client_facts(1) by (simp add: connected_def)
  have c: "connected ?g \<and> \<not> has_quit ?g \<and> \<not> reconnect_permitted ?g"
    using connected_client_facts(1,2) by (simp add: connected_def reconnect_permitted_def)
  have d: "connected connected_client \<and> \<not> has_quit connected_client \<and>
      reconnect_permitted connected_client \<and> reconnect_delay connected_client = Inr 0 \<and>
      connection connected_client = Some ?t \<and> truthy_str (t_hostname ?t)"
    using connected_client_facts by (simp add: truthy_str_def)
  from a disconnect_frame [of example_client]
  have 1: "disconnect example_client = Ok example_client" by simp
  from b disconnect_frame [of ?q]
  have 2: "disconnect ?q = Ok (session_reset ?q (closed_transport ?q) [TransportDisconnect])"
    by simp
  from c disconnect_frame [of ?g]
  have 3: "disconnect ?g =
      Ok (session_reset ?g (closed_transport ?g) [TransportDisconnect, giving_up_log])"
    by simp
  from d disconnect_frame [of connected_client 0 ?t]
  have 4: "disconnect connected_client =
     Ok ((session_reset connected_client (reopened_transport connected_client)
           [TransportDisconnect, reconnect_log 0, Sleep 0, TransportConnect,
            TransportOn ''read'' ''on_data'', TransportOn ''error'' ''on_data_error''])
         \<lparr>reconnect_attempts := reconnect_attempts connected_client + 1\<rparr>)"
    by simp
  from a b c d 1 2 3 4 show ?thesis by simp
qed

lemma on_data_error_reconnects:
  assumes "RECONNECT_ON_ERROR s" and "RECONNECT_DELAYED s"
    and "RECONNECT_MAX_ATTEMPTS s = Some m" and "reconnect_attempts s < m"
    and "reconnect_attempts s < length (RECONNECT_DELAYS s)"
    and "\<not> has_quit s" and "connection s = Some t" and "t_connected t"
    and "truthy_str (t_hostname t)"
  shows "\<exists>s'. on_data_error s = Ok s' \<and>
     trace s' = trace s @ reconnect_events (RECONNECT_DELAYS s ! reconnect_attempts s) \<and>
     reconnect_attempts s' = reconnect_attempts s + 1 \<and>
     RECONNECT_ON_ERROR s' \<and> RECONNECT_DELAYED s' \<and>
     RECONNECT_MAX_ATTEMPTS s' = Some m \<and> RECONNECT_DELAYS s' = RECONNECT_DELAYS s \<and>
     \<not> has_quit s' \<and> connected s' \<and>
     (\<exists>t'. connection s' = Some t' \<and> t_connected t' \<and> truthy_str (t_hostname t'))"
proof -
  let ?d = "RECONNECT_DELAYS s ! reconnect_attempts s"
  have c: "connected s" using assms(7,8) by (simp add: connected_def)
  have p: "reconnect_permitted s" using assms(1,3,4) by (simp add: reconnect_permitted_def)
  have d: "reconnect_delay s = Inr ?d"
    using assms(1,2,5) by (simp add: reconnect_delay_def list_getitem_def)
  note r = disconnect_reconnects [OF c assms(6) p d assms(7) assms(9)]
  show ?thesis
    using assms
    by (simp add: on_data_error_def r session_reset_def reconnect_events_def connected_def
        reopened_transport_def)
qed

lemma on_data_error_gives_up:
  assumes "RECONNECT_MAX_ATTEMPTS s = Some m" and "\<not> reconnect_attempts s < m"
    and "\<not> has_quit s" and "connection s = Some t" and "t_connected t"
  shows "\<exists>s'. on_data_error s = Ok s' \<and>
     trace s' = trace s @ [TransportDisconnect, giving_up_log] \<and>
     reconnect_attempts s' = reconnect_attempts s \<and> \<not> connected s'"
proof -
  have c: "connected s" using assms(4,5) by (simp add: connected_def)
  have p: "\<not> reconnect_permitted s" using assms(1,2) by (simp add: reconnect_permitted_def)
  note r = disconnect_giving_up [OF c assms(3) p]
  show ?thesis
    using assms(4)
    by (simp add: on_data_error_def r session_reset_def connected_def closed_transport_def)
qed

lemma on_connect_resets_attempts:
  "autojoin_channels s = [] \<Longrightarrow> on_connect join s = Ok (s\<lparr>reconnect_attempts := 0\<rparr>)"
  by (simp add: on_connect_def)

text \<open>
  C8. A connected session with at most 2 attempts, schedule \<open>[0, 30]\<close>, counter 0 and the
  quit flag clear, hit by three transport errors in a row (\<^verbatim>\<open>on_data_error\<close>, with no
  \<^verbatim>\<open>on_connect\<close> in between): the first error reconnects after \<^verbatim>\<open>sleep(0)\<close>, the second
  after \<^verbatim>\<open>sleep(30)\<close> (each delay read at the counter's value before the increment), the
  third logs "Giving up", makes no transport call but the disconnect, and leaves the
  session disconnected with the counter at 2. No call raises.
\<close>

theorem three_unexpected_disconnects:
  assumes "RECONNECT_ON_ERROR s" and "RECONNECT_DELAYED s"
    and "RECONNECT_MAX_ATTEMPTS s = Some 2" and "RECONNECT_DELAYS s = [0, 30]"
    and "reconnect_attempts s = 0" and "\<not> has_quit s"
    and "connection s = Some t" and "t_connected t" and "truthy_str (t_hostname t)"
  shows "\<exists>s1 s2 s3.
     on_data_error s = Ok s1 \<and> on_data_error s1 = Ok s2 \<and> on_data_error s2 = Ok s3 \<and>
     trace s1 = trace s @
       [TransportDisconnect,
        Log Error ''Unexpected disconnect. Attempting to reconnect.'' [],
        Sleep 0, TransportConnect,
        TransportOn ''read'' ''on_data'', TransportOn ''error'' ''on_data_error''] \<and>
     connected s1 \<and> reconnect_attempts s1 = 1 \<and>
     trace s2 = trace s1 @
       [TransportDisconnect,
        Log Error ''Unexpected disconnect. Attempting to reconnect within %s seconds.'' [PInt 30],
        Sleep 30, TransportConnect,
        TransportOn ''read'' ''on_data'', TransportOn ''error'' ''on_data_error''] \<and>
     connected s2 \<and> reconnect_attempts s2 = 2 \<and>
     trace s3 = trace s2 @
       [TransportDisconnect, Log Error ''Unexpected disconnect. Giving up.'' []] \<and>
     \<not> connected s3 \<and> reconnect_attempts s3 = 2"
proof -
  from on_data_error_reconnects [OF assms(1,2,3) _ _ assms(6,7,8,9)] assms(4,5)
  obtain s1 t1 where s1: "on_data_error s = Ok s1"
    "trace s1 = trace s @ reconnect_events 0" "reconnect_attempts s1 = 1"
    "RECONNECT_ON_ERROR s1" "RECONNECT_DELAYED s1" "RECONNECT_MAX_ATTEMPTS s1 = Some 2"
    "RECONNECT_DELAYS s1 = [0, 30]" "\<not> has_quit s1" "connected s1"
    "connection s1 = Some t1" "t_connected t1" "truthy_str (t_hostname t1)"
    by auto
  from on_data_error_reconnects [OF s1(4,5,6) _ _ s1(8,10,11,12)] s1(3,7)
  obtain s2 t2 where s2: "on_data_error s1 = Ok s2"
    "trace s2 = trace s1 @ reconnect_events 30" "reconnect_attempts s2 = 2"
    "RECONNECT_MAX_ATTEMPTS s2 = Some 2" "\<not> has_quit s2" "connected s2"
    "connection s2 = Some t2" "t_connected t2"
    by auto
  from on_data_error_gives_up [OF s2(4) _ s2(5,7,8)] s2(3)
  obtain s3 where s3: "on_data_error s2 = Ok s3"
    "trace s3 = trace s2 @ [TransportDisconnect, giving_up_log]"
    "reconnect_attempts s3 = 2" "\<not> connected s3"
    by auto
  show ?thesis
    apply (rule exI [of _ s1], rule exI [of _ s2], rule exI [of _ s3])
    using s1(1,2,3,9) s2(1,2,3,6) s3
    apply (simp add: reconnect_events_def reconnect_log_def giving_up_log_def)
    done
qed

theorem three_unexpected_disconnects_witness:
  "RECONNECT_ON_ERROR scenario_client \<and> RECONNECT_DELAYED scenario_client \<and>
   RECONNECT_MAX_ATTEMPTS scenario_client = Some 2 \<and>
   RECONNECT_DELAYS scenario_client = [0, 30] \<and>
   reconnect_attempts scenario_client = 0 \<and> \<not> has_quit scenario_client \<and>
   connected scenario_client \<and>
   (\<exists>s1 s2 s3.
     on_data_error scenario_client = Ok s1 \<and> on_data_error s1 = Ok s2 \<and>
     on_data_error s2 = Ok s3 \<and>
     trace s1 = trace scenario_client @
       [TransportDisconnect,
        Log Error ''Unexpected disconnect. Attempting to reconnect.'' [],
        Sleep 0, TransportConnect,
        TransportOn ''read'' ''on_data'', TransportOn ''error'' ''on_data_error''] \<and>
     connected s1 \<and> reconnect_attempts s1 = 1 \<and>
     trace s2 = trace s1 @
       [TransportDisconnect,
        Log Error ''Unexpected disconnect. Attempting to reconnect within %s seconds.'' [PInt 30],
        Sleep 30, TransportConnect,
        TransportOn ''read'' ''on_data'', TransportOn ''error'' ''on_data_error''] \<and>
     connected s2 \<and> reconnect_attempts s2 = 2 \<and>
     trace s3 = trace s2 @
       [TransportDisconnect, Log Error ''Unexpected disconnect. Giving up.'' []] \<and>
     \<not> connected s3 \<and> reconnect_attempts s3 = 2)"
proof -
  let ?t = "\<lparr>t_hostname = Some ''irc.example.com'', t_port = 6667,
        t_source_address = None, t_connected = True,
        t_callbacks = [(''read'', ''on_data''), (''error'', ''on_data_error'')]\<rparr>"
  have a: "RECONNECT_ON_ERROR scenario_client" "RECONNECT_DELAYED scenario_client"
    "RECONNECT_MAX_ATTEMPTS scenario_client = Some 2"
    "RECONNECT_DELAYS scenario_client = [0, 30]"
    "reconnect_attempts scenario_client = 0" "\<not> has_quit scenario_client"
    "connection scenario_client = Some ?t" "t_connected ?t" "truthy_str (t_hostname ?t)"
    by (simp_all add: scenario_client_def connected_client_eq example_client_eq truthy_str_def)
  have c: "connected scenario_client" using a(7) by (simp add: connected_def)
  note t = three_unexpected_disconnects [OF a]
  from a(1-6) c t show ?thesis by (intro conjI)
qed

subsection \<open>Message dispatch\<close>

lemma on_raw_returns: "\<exists>s'. on_raw h m s = Ok s'"
  by (simp add: on_raw_def split: outcome.splits)

lemma dispatch_loop_step:
  assumes "has_message h s = Inr True" and "parse_message h s = Inr (m, s1)"
  shows "dispatch_loop h s = dispatch_loop h (state_of (on_raw h m s1))"
proof -
  obtain s' where s': "on_raw h m s1 = Ok s'"
    using on_raw_returns by blast
  show ?thesis
    by (subst dispatch_loop.simps) (simp add: assms s')
qed

lemma dispatch_loop_done: "has_message h s = Inr False \<Longrightarrow> dispatch_loop h s = Some (Ok s)"
  by (subst dispatch_loop.simps) simp

lemma dispatch_loop_codec_error:
  "has_message h s = Inl e \<Longrightarrow> dispatch_loop h s = Some (Raised e s)"
  "has_message h s = Inr True \<Longrightarrow> parse_message h s = Inl e \<Longrightarrow>
     dispatch_loop h s = Some (Raised e s)"
  by (subst dispatch_loop.simps, simp)+

text \<open>With the codec of \<^verbatim>\<open>BasicClient\<close> itself, \<^verbatim>\<open>on_data\<close> raises at the first test of the
  loop, after it has appended the data.\<close>

lemma on_data_abstract:
  "on_data abstract_hooks dat s =
     Some (Raised NotImplementedError (s\<lparr>receive_buffer := receive_buffer s @ dat\<rparr>))"
  unfolding on_data_def
  by (rule dispatch_loop_codec_error(1)) (simp add: abstract_hooks_def)

lemma dispatch_loop_terminates:
  assumes "\<And>s. has_message h s = Inr False \<or>
      (has_message h s = Inr True \<and>
       (\<exists>m s1. parse_message h s = Inr (m, s1) \<and> f (state_of (on_raw h m s1)) < (f s :: nat)))"
  shows "\<exists>s'. dispatch_loop h s = Some (Ok s') \<and> has_message h s' = Inr False"
proof (induction "f s" arbitrary: s rule: less_induct)
  case less
  from assms [of s] show ?case
  proof
    assume "has_message h s = Inr False"
    then show ?thesis by (simp add: dispatch_loop_done)
  next
    assume "has_message h s = Inr True \<and>
       (\<exists>m s1. parse_message h s = Inr (m, s1) \<and> f (state_of (on_raw h m s1)) < f s)"
    then obtain m s1 where
      a: "has_message h s = Inr True" "parse_message h s = Inr (m, s1)"
      and d: "f (state_of (on_raw h m s1)) < f s" by blast
    from less [OF d] show ?thesis by (simp add: dispatch_loop_step [OF a])
  qed
qed

lemma lower_privmsg: "py_lower ''PRIVMSG'' = ''privmsg''"
  by code_simp

lemma lower_ping: "py_lower ''PING'' = ''ping''"
  by code_simp

lemma example_hooks_sel:
  "has_message example_hooks s = Inr (line_has_message s)"
  "parse_message example_hooks s = Inr (line_parse_message s)"
  "handlers example_hooks = [''on_raw_privmsg'' \<mapsto> failing_privmsg, ''on_raw_ping'' \<mapsto> answer_ping]"
  by (simp_all add: example_hooks_def)

lemma method_privmsg: "method_for example_hooks (line_message ''PRIVMSG'') = ''on_raw_privmsg''"
  by (simp add: method_for_def example_hooks_sel line_message_def lower_privmsg)

lemma method_ping: "method_for example_hooks (line_message ''PING'') = ''on_raw_ping''"
  by (simp add: method_for_def example_hooks_sel line_message_def lower_ping)

lemma log_line: "log_message (line_message l) s =
    emit (Log Debug ''<< [%s] %s %s'' [PStr [], PStr l, PList []]) s"
  by (simp add: log_message_def line_message_def truthy_str_def command_val_def)

lemma buffer_emit [simp]: "receive_buffer (emit e s) = receive_buffer s"
  by (simp add: emit_def)

lemma buffer_log [simp]: "receive_buffer (log_message m s) = receive_buffer s"
  by (simp add: log_message_def Let_def)

lemma buffer_on_raw: "receive_buffer (state_of (on_raw example_hooks m s)) = receive_buffer s"
proof -
  have "handlers example_hooks (method_for example_hooks m) = Some failing_privmsg \<or>
        handlers example_hooks (method_for example_hooks m) = Some answer_ping \<or>
        handlers example_hooks (method_for example_hooks m) = None"
    by (simp add: example_hooks_sel)
  then show ?thesis
    by (auto simp: on_raw_def resolve_def failing_privmsg_def answer_ping_def on_unknown_def)
qed

text \<open>The line codec consumes its buffer: each message parsed shortens it, and no hook of
  the example writes to it.\<close>

lemma example_consumes:
  "has_message example_hooks s = Inr False \<or>
   (has_message example_hooks s = Inr True \<and>
    (\<exists>m s1. parse_message example_hooks s = Inr (m, s1) \<and>
       length (receive_buffer (state_of (on_raw example_hooks m s1))) < length (receive_buffer s)))"
proof (cases "line_has_message s")
  case False
  then show ?thesis by (simp add: example_hooks_sel)
next
  case True
  then have "dropWhile (\<lambda>c. c \<noteq> newline) (receive_buffer s) \<noteq> []"
    by (simp add: line_has_message_def)
  then have "length (drop 1 (dropWhile (\<lambda>c. c \<noteq> newline) (receive_buffer s)))
      < length (dropWhile (\<lambda>c. c \<noteq> newline) (receive_buffer s))"
    by (cases "dropWhile (\<lambda>c. c \<noteq> newline) (receive_buffer s)") simp_all
  also have "\<dots> \<le> length (receive_buffer s)" by (rule length_dropWhile_le)
  finally have "length (receive_buffer (snd (line_parse_message s))) < length (receive_buffer s)"
    by (simp add: line_parse_message_def)
  moreover obtain m s1 where "line_parse_message s = (m, s1)"
    by (cases "line_parse_message s")
  ultimately show ?thesis
    using True by (simp add: example_hooks_sel buffer_on_raw)
qed

lemma parse_lines:
  "line_parse_message (s\<lparr>receive_buffer := ''PRIVMSG'' @ newline # rest\<rparr>) =
     (line_message ''PRIVMSG'', s\<lparr>receive_buffer := rest\<rparr>)"
  "line_parse_message (s\<lparr>receive_buffer := ''PING'' @ newline # rest\<rparr>) =
     (line_message ''PING'', s\<lparr>receive_buffer := rest\<rparr>)"
  by (simp_all add: line_parse_message_def newline_def)

lemma on_raw_privmsg:
  "on_raw example_hooks (line_message ''PRIVMSG'') s =
     Ok (emit (Log Exception ''Failed to execute %s handler.'' [PStr ''on_raw_privmsg''])
          (emit (Log Debug ''<< [%s] %s %s'' [PStr [], PStr ''PRIVMSG'', PList []]) s))"
  by (simp add: on_raw_def method_privmsg resolve_def example_hooks_sel failing_privmsg_def
      log_line)

lemma on_raw_ping:
  "on_raw example_hooks (line_message ''PING'') s =
     Ok (emit (TransportSend ''PONG'')
          (emit (Log Debug ''<< [%s] %s %s'' [PStr [], PStr ''PING'', PList []]) s))"
  by (simp add: on_raw_def method_ping resolve_def example_hooks_sel answer_ping_def log_line)

text \<open>
  C6. Whatever the message and whatever the resolved handler does, \<^verbatim>\<open>on_raw\<close> returns
  without an exception; when the handler raises, the result is the state the handler
  left, with one more log record that names the handler. Each turn of the loop of
  \<^verbatim>\<open>on_data\<close> therefore goes on with the state that \<^verbatim>\<open>on_raw\<close> returned, whatever the
  handler did, and \<^verbatim>\<open>on_data\<close> returns with no message left whenever the codec returns
  and consumes its buffer (some measure of the state decreases with each message parsed
  and routed).
\<close>

theorem on_raw_swallows_handler_errors:
  "raised (on_raw h m s) = None \<and>
   (resolve h (method_for h m) m (log_message m s) = Raised e s' \<longrightarrow>
      on_raw h m s =
        Ok (emit (Log Exception ''Failed to execute %s handler.'' [PStr (method_for h m)]) s')) \<and>
   (has_message h s = Inr True \<and> parse_message h s = Inr (m, s1) \<longrightarrow>
      dispatch_loop h s = dispatch_loop h (state_of (on_raw h m s1))) \<and>
   ((\<forall>s. has_message h s = Inr False \<or>
         (has_message h s = Inr True \<and>
          (\<exists>m s1. parse_message h s = Inr (m, s1) \<and>
             f (state_of (on_raw h m s1)) < (f s :: nat)))) \<longrightarrow>
      (\<exists>s'. on_data h dat s = Some (Ok s') \<and> has_message h s' = Inr False))"
proof -
  have 1: "raised (on_raw h m s) = None"
    using on_raw_returns [of h m s] by auto
  have 2: "resolve h (method_for h m) m (log_message m s) = Raised e s' \<longrightarrow>
      on_raw h m s =
        Ok (emit (Log Exception ''Failed to execute %s handler.'' [PStr (method_for h m)]) s')"
    by (simp add: on_raw_def)
  have 3: "has_message h s = Inr True \<and> parse_message h s = Inr (m, s1) \<longrightarrow>
      dispatch_loop h s = dispatch_loop h (state_of (on_raw h m s1))"
    by (simp add: dispatch_loop_step)
  have 4: "(\<forall>s. has_message h s = Inr False \<or>
         (has_message h s = Inr True \<and>
          (\<exists>m s1. parse_message h s = Inr (m, s1) \<and> f (state_of (on_raw h m s1)) < f s))) \<longrightarrow>
      (\<exists>s'. on_data h dat s = Some (Ok s') \<and> has_message h s' = Inr False)"
  proof
    assume a: "\<forall>s. has_message h s = Inr False \<or>
         (has_message h s = Inr True \<and>
          (\<exists>m s1. parse_message h s = Inr (m, s1) \<and> f (state_of (on_raw h m s1)) < f s))"
    show "\<exists>s'. on_data h dat s = Some (Ok s') \<and> has_message h s' = Inr False"
      unfolding on_data_def
      by (rule dispatch_loop_terminates [of h f]) (rule a [rule_format])
  qed
  from 1 2 3 4 show ?thesis by (intro conjI)
qed

theorem on_raw_swallows_handler_errors_witness:
  "resolve example_hooks (method_for example_hooks (line_message ''PRIVMSG''))
      (line_message ''PRIVMSG'') (log_message (line_message ''PRIVMSG'') example_client) =
     Raised (HandlerFault ''privmsg hook'') (log_message (line_message ''PRIVMSG'') example_client) \<and>
   on_raw example_hooks (line_message ''PRIVMSG'') example_client =
     Ok (emit (Log Exception ''Failed to execute %s handler.'' [PStr ''on_raw_privmsg''])
           (log_message (line_message ''PRIVMSG'') example_client)) \<and>
   has_message example_hooks (example_client\<lparr>receive_buffer := two_lines\<rparr>) = Inr True \<and>
   parse_message example_hooks (example_client\<lparr>receive_buffer := two_lines\<rparr>) =
     Inr (line_message ''PRIVMSG'', example_client\<lparr>receive_buffer := ''PING'' @ [newline]\<rparr>) \<and>
   on_data example_hooks two_lines example_client =
     Some (Ok (example_client\<lparr>trace :=
        [Log Debug ''<< [%s] %s %s'' [PStr [], PStr ''PRIVMSG'', PList []],
         Log Exception ''Failed to execute %s handler.'' [PStr ''on_raw_privmsg''],
         Log Debug ''<< [%s] %s %s'' [PStr [], PStr ''PING'', PList []],
         TransportSend ''PONG'']\<rparr>)) \<and>
   (\<exists>s'. on_data example_hooks two_lines example_client = Some (Ok s') \<and>
         has_message example_hooks s' = Inr False)"
proof -
  let ?m = "line_message ''PRIVMSG''"
  let ?ping = "line_message ''PING''"
  define s0 where
    "s0 = example_client\<lparr>receive_buffer := ''PRIVMSG'' @ newline # ''PING'' @ [newline]\<rparr>"
  define p1 where "p1 = example_client\<lparr>receive_buffer := ''PING'' @ newline # []\<rparr>"
  define s1 where "s1 = state_of (on_raw example_hooks ?m p1)"
  define p2 where "p2 = s1\<lparr>receive_buffer := []\<rparr>"
  define s2 where "s2 = state_of (on_raw example_hooks ?ping p2)"
  note t = on_raw_swallows_handler_errors
  have a: "resolve example_hooks (method_for example_hooks ?m) ?m (log_message ?m example_client) =
     Raised (HandlerFault ''privmsg hook'') (log_message ?m example_client)"
    by (simp add: method_privmsg resolve_def example_hooks_sel failing_privmsg_def)
  from a t [of example_hooks ?m example_client "HandlerFault ''privmsg hook''"
            "log_message ?m example_client"]
  have b: "on_raw example_hooks ?m example_client =
     Ok (emit (Log Exception ''Failed to execute %s handler.'' [PStr ''on_raw_privmsg''])
           (log_message ?m example_client))"
    by (simp add: method_privmsg)
  have e0: "example_client\<lparr>receive_buffer := two_lines\<rparr> = s0"
    by (simp add: two_lines_def s0_def)
  have e1: "example_client\<lparr>receive_buffer := ''PING'' @ [newline]\<rparr> = p1"
    by (simp add: p1_def)
  have h0: "has_message example_hooks s0 = Inr True"
    by (simp add: example_hooks_sel line_has_message_def s0_def)
  have q0: "parse_message example_hooks s0 = Inr (?m, p1)"
    unfolding example_hooks_sel s0_def p1_def parse_lines by simp
  have s1: "s1 = (example_client\<lparr>trace :=
        [Log Debug ''<< [%s] %s %s'' [PStr [], PStr ''PRIVMSG'', PList []],
         Log Exception ''Failed to execute %s handler.'' [PStr ''on_raw_privmsg'']]\<rparr>)
        \<lparr>receive_buffer := ''PING'' @ newline # []\<rparr>"
    unfolding s1_def on_raw_privmsg p1_def by (simp add: emit_def example_client_eq)
  have h1: "has_message example_hooks s1 = Inr True"
    unfolding s1 by (simp add: example_hooks_sel line_has_message_def)
  have q1: "parse_message example_hooks s1 = Inr (?ping, p2)"
    unfolding example_hooks_sel p2_def s1 parse_lines by simp
  have s2: "s2 = example_client\<lparr>trace :=
        [Log Debug ''<< [%s] %s %s'' [PStr [], PStr ''PRIVMSG'', PList []],
         Log Exception ''Failed to execute %s handler.'' [PStr ''on_raw_privmsg''],
         Log Debug ''<< [%s] %s %s'' [PStr [], PStr ''PING'', PList []],
         TransportSend ''PONG'']\<rparr>"
    unfolding s2_def on_raw_ping p2_def s1 by (simp add: emit_def example_client_eq)
  have h2: "has_message example_hooks s2 = Inr False"
    unfolding s2 by (simp add: example_hooks_sel line_has_message_def example_client_eq)
  from h0 q0 t [of example_hooks ?m s0 _ _ p1]
  have l0: "dispatch_loop example_hooks s0 = dispatch_loop example_hooks s1"
    unfolding s1_def by blast
  from h1 q1 t [of example_hooks ?ping s1 _ _ p2]
  have l1: "dispatch_loop example_hooks s1 = dispatch_loop example_hooks s2"
    unfolding s2_def by blast
  have l2: "dispatch_loop example_hooks s2 = Some (Ok s2)"
    using h2 by (rule dispatch_loop_done)
  have od: "on_data example_hooks two_lines example_client = dispatch_loop example_hooks s0"
    by (simp add: on_data_def two_lines_def example_client_eq s0_def)
  have c: "on_data example_hooks two_lines example_client = Some (Ok s2)"
    by (simp add: od l0 l1 l2)
  have e: "\<exists>s'. on_data example_hooks two_lines example_client = Some (Ok s') \<and>
         has_message example_hooks s' = Inr False"
  proof -
    have "\<forall>s. has_message example_hooks s = Inr False \<or>
       (has_message example_hooks s = Inr True \<and>
        (\<exists>m s1. parse_message example_hooks s = Inr (m, s1) \<and>
           length (receive_buffer (state_of (on_raw example_hooks m s1)))
             < length (receive_buffer s)))"
      by (rule allI) (rule example_consumes)
    with t [of example_hooks _ example_client _ _ _ "\<lambda>s. length (receive_buffer s)" two_lines]
    show ?thesis by blast
  qed
  from a b h0 q0 c e show ?thesis
    unfolding e0 [symmetric] e1 [symmetric] s2 by (intro conjI)
qed

subsection \<open>The client pool\<close>

lemma next_ready_found:
  "ready (cs ! ((k + d) mod length cs)) = Inr True \<Longrightarrow>
   (\<forall>e<d. ready (cs ! ((k + e) mod length cs)) = Inr False) \<Longrightarrow>
   next_ready ready cs k = Some (None, k + d)"
proof (induction d arbitrary: k)
  case 0
  then show ?case by (subst next_ready.simps) simp
next
  case (Suc d)
  from Suc.prems(2) have n: "ready (cs ! (k mod length cs)) = Inr False" by force
  have r: "ready (cs ! ((Suc k + d) mod length cs)) = Inr True" using Suc.prems(1) by simp
  have q: "\<forall>e<d. ready (cs ! ((Suc k + e) mod length cs)) = Inr False"
  proof (intro allI impI)
    fix e assume "e < d"
    then have "Suc e < Suc d" by simp
    with Suc.prems(2) have "ready (cs ! ((k + Suc e) mod length cs)) = Inr False" by blast
    then show "ready (cs ! ((Suc k + e) mod length cs)) = Inr False" by simp
  qed
  have "next_ready ready cs k = next_ready ready cs (Suc k)"
    by (subst next_ready.simps) (simp add: n)
  also have "\<dots> = Some (None, Suc k + d)" using r q by (rule Suc.IH)
  finally show ?case by simp
qed

text \<open>
  C7. \<^verbatim>\<open>handle_message\<close> scans from the position its cycle has reached, not from the
  start of the set: when the pool has a message and the first client with a message is
  \<open>d\<close> places after that position, it polls that client and leaves the cycle one place
  after it, which is where the next call starts. With clients A, B, C of which A has two
  messages, B none and C one, two calls in a row poll A and then C.
\<close>

theorem handle_message_resumes_after_last:
  assumes "connpool_has_message h (clients p)"
    and "clients p \<noteq> []"
    and "client_has_message h (clients p ! ((client_cycle p + d) mod length (clients p))) = Inr True"
    and "\<forall>e<d. client_has_message h (clients p ! ((client_cycle p + e) mod length (clients p)))
           = Inr False"
  shows "handle_message h p =
     Some (Inr (Some (fst (client_poll_single h
                        (clients p ! ((client_cycle p + d) mod length (clients p)))))),
           p\<lparr>clients := (clients p)[(client_cycle p + d) mod length (clients p) :=
                          snd (client_poll_single h
                                 (clients p ! ((client_cycle p + d) mod length (clients p))))],
             client_cycle := Suc (client_cycle p + d)\<rparr>)"
proof -
  have "next_ready (client_has_message h) (clients p) (client_cycle p)
          = Some (None, client_cycle p + d)"
    using assms(3,4) by (rule next_ready_found)
  then show ?thesis
    using assms(1,2) by (simp add: handle_message_def Let_def)
qed

theorem handle_message_resumes_after_last_witness:
  "connpool_has_message counting_hooks [busy_a, idle_b, busy_c] \<and>
   client_has_message counting_hooks busy_a = Inr True \<and>
   client_has_message counting_hooks (''A'', 1) = Inr True \<and>
   client_has_message counting_hooks idle_b = Inr False \<and>
   client_has_message counting_hooks busy_c = Inr True \<and>
   handle_message counting_hooks (pool_init [busy_a, idle_b, busy_c]) =
     Some (Inr (Some ''A''), \<lparr>clients = [(''A'', 1), idle_b, busy_c], client_cycle = 1\<rparr>) \<and>
   handle_message counting_hooks \<lparr>clients = [(''A'', 1), idle_b, busy_c], client_cycle = 1\<rparr> =
     Some (Inr (Some ''C''), \<lparr>clients = [(''A'', 1), idle_b, (''C'', 0)], client_cycle = 3\<rparr>)"
proof -
  let ?p0 = "pool_init [busy_a, idle_b, busy_c]"
  let ?p1 = "\<lparr>clients = [(''A'', 1), idle_b, busy_c], client_cycle = 1\<rparr> :: (string \<times> nat) pool"
  have sel: "client_has_message counting_hooks = (\<lambda>c. Inr (0 < snd c))"
    "client_poll_single counting_hooks = (\<lambda>c. (fst c, (fst c, snd c - 1)))"
    "connpool_has_message counting_hooks = list_ex (\<lambda>c. 0 < snd c)"
    by (simp_all add: counting_hooks_def)
  have f1: "connpool_has_message counting_hooks [busy_a, idle_b, busy_c]"
    by (simp add: sel busy_a_def)
  have f2: "client_has_message counting_hooks busy_a = Inr True" by (simp add: sel busy_a_def)
  have f3: "client_has_message counting_hooks (''A'', 1) = Inr True" by (simp add: sel)
  have f4: "client_has_message counting_hooks idle_b = Inr False" by (simp add: sel idle_b_def)
  have f5: "client_has_message counting_hooks busy_c = Inr True" by (simp add: sel busy_c_def)
  have a1: "connpool_has_message counting_hooks (clients ?p0)"
    using f1 by (simp add: pool_init_def)
  have a2: "clients ?p0 \<noteq> []" by (simp add: pool_init_def)
  have a3: "client_has_message counting_hooks
      (clients ?p0 ! ((client_cycle ?p0 + 0) mod length (clients ?p0))) = Inr True"
    using f2 by (simp add: pool_init_def)
  have a4: "\<forall>e<0. client_has_message counting_hooks
      (clients ?p0 ! ((client_cycle ?p0 + e) mod length (clients ?p0))) = Inr False"
    by simp
  have b1: "connpool_has_message counting_hooks (clients ?p1)"
    by (simp add: sel)
  have b2: "clients ?p1 \<noteq> []" by simp
  have i2: "(client_cycle ?p1 + 1) mod length (clients ?p1) = Suc (Suc 0)" by simp
  have b3: "client_has_message counting_hooks
      (clients ?p1 ! ((client_cycle ?p1 + 1) mod length (clients ?p1))) = Inr True"
    unfolding i2 using f5 by simp
  have b4: "\<forall>e<1. client_has_message counting_hooks
      (clients ?p1 ! ((client_cycle ?p1 + e) mod length (clients ?p1))) = Inr False"
    using f4 by simp
  have pa: "client_poll_single counting_hooks busy_a = (''A'', (''A'', 1))"
    by (simp add: sel busy_a_def)
  have pc: "client_poll_single counting_hooks busy_c = (''C'', (''C'', 0))"
    by (simp add: sel busy_c_def)
  have one: "handle_message counting_hooks ?p0 = Some (Inr (Some ''A''), ?p1)"
    using handle_message_resumes_after_last [OF a1 a2 a3 a4]
    by (simp add: pool_init_def pa)
  have n2: "clients ?p1 ! Suc (Suc 0) = busy_c" by simp
  have two: "handle_message counting_hooks ?p1 =
     Some (Inr (Some ''C''), \<lparr>clients = [(''A'', 1), idle_b, (''C'', 0)], client_cycle = 3\<rparr>)"
    using handle_message_resumes_after_last [OF b1 b2 b3 b4]
    unfolding i2 n2 pc by simp
  from f1 f2 f3 f4 f5 one two show ?thesis by (intro conjI)
qed

end
